theory Spec2Isabelle
  imports Main "HOL-Library.AList"
begin

section \<open>Values of the JavaScript program\<close>

text \<open>
  The source is \<open>src/js/networks/RemoteSync.js\<close>. A \<open>THREE.Object3D\<close> is a mutable
  object: the engine compares objects by identity (\<open>===\<close>) and reads their fields, so an
  object is a reference into a heap, and the heap is part of the modelled state.
\<close>

type_synonym ref = nat
type_synonym uuid = string
type_synonym peer = string
type_synonym shared_id = string
type_synonym listener = nat

text \<open>
  A channel value. \<open>Num x\<close> is a number that is not NaN; the type \<open>'f\<close> stands for these
  numbers, compared the way \<open>===\<close> compares them. \<open>Undefined\<close> is what JavaScript reads
  beyond the end of an array.
\<close>

datatype 'f jsval = Undefined | NaN | Num 'f

text \<open>
  \<open>ensureFloat32\<close> stores the value in a one-element \<open>Float32Array\<close> and reads it back.
  The typed array is the platform's: its rounding of a number is the parameter \<open>r\<close>.
  \<open>undefined\<close> and NaN are stored as NaN.
\<close>

fun ensureFloat32 :: "('f \<Rightarrow> 'f) \<Rightarrow> 'f jsval \<Rightarrow> 'f jsval" where
  "ensureFloat32 r Undefined = NaN"
| "ensureFloat32 r NaN = NaN"
| "ensureFloat32 r (Num x) = Num (r x)"

text \<open>The operator \<open>===\<close> on channel values: NaN is not equal to anything, itself included.\<close>

fun strict_eq :: "'f jsval \<Rightarrow> 'f jsval \<Rightarrow> bool" where
  "strict_eq (Num a) (Num b) = (a = b)"
| "strict_eq Undefined Undefined = True"
| "strict_eq _ _ = False"

text \<open>\<open>array[i]\<close>: \<open>undefined\<close> out of range.\<close>

definition js_index :: "'f jsval list \<Rightarrow> nat \<Rightarrow> 'f jsval" where
  "js_index array i = (if i < length array then array ! i else Undefined)"

record 'f object3d =
  uuid :: uuid
  elements :: "'f jsval list"
  morphTargetInfluences :: "'f jsval list option"

text \<open>
  The transfer component of an object (the spec's Snapshot), which is also the record of a
  SYNC message: \<open>{id, sid?, matrix, morphTargetInfluences}\<close>.
\<close>

record 'f transfer =
  t_id :: uuid
  t_sid :: "shared_id option"
  t_matrix :: "'f jsval list"
  t_morphTargetInfluences :: "'f jsval list"

datatype info = EmptyObject | Info string

datatype transfer_type =
  TRANSFER_TYPE_SYNC | TRANSFER_TYPE_ADD | TRANSFER_TYPE_REMOVE | TRANSFER_TYPE_USER_DATA

text \<open>The message envelope \<open>{id, did, type, list}\<close>; \<open>'a\<close> is the shape of its records.\<close>

record 'a component =
  c_id :: peer
  c_did :: "peer option"
  c_type :: transfer_type
  c_list :: "'a list"

datatype 'f packet =
  SyncPacket "'f transfer component"
| AddPacket "(uuid \<times> info option) component"
| RemovePacket "uuid component"

datatype 'f outgoing = Send peer "'f packet" | Broadcast "'f packet"

datatype event =
  Connect peer
| Disconnect peer
| Remove peer uuid ref

text \<open>
  A thrown error ends the call: a function that can throw returns the error or its result,
  and the model does not keep the state reached when the error was thrown.
\<close>

datatype js_error = TypeError | ReferenceError

section \<open>The state of a RemoteSync and of what it talks to\<close>

text \<open>
  The fields of \<open>THREE.RemoteSync\<close> keep their names. Tables that the code only looks up
  are maps; a peer's table of remote objects is also enumerated (\<open>Object.keys\<close>), so it is
  an association list in insertion order (the order of \<open>Object.keys\<close> for keys that are
  not array indices). The last five fields are the surroundings:
  the objects, the client's number of connections, what was handed to the client's
  \<open>send\<close> and \<open>broadcast\<close> (a message is recorded with the contents it has at the call),
  the calls made to the application's listeners, and the console's warnings.
  Listeners are opaque: they are taken not to call back into the engine.
\<close>

record 'f remote_sync =
  self_id :: peer
  localObjects :: "ref list"
  localObjectTable :: "uuid \<rightharpoonup> ref"
  localObjectInfos :: "uuid \<rightharpoonup> info"
  remoteObjectTable :: "peer \<rightharpoonup> (uuid \<times> ref) list"
  sharedObjects :: "ref list"
  sharedObjectTable :: "shared_id \<rightharpoonup> ref"
  transferComponents :: "uuid \<rightharpoonup> 'f transfer"
  onConnects :: "listener list"
  onDisconnects :: "listener list"
  onRemoves :: "listener list"
  heap :: "ref \<Rightarrow> 'f object3d"
  connectionNum :: nat
  sent :: "'f outgoing list"
  calls :: "(listener \<times> event) list"
  warnings :: "string list"

definition uuid_of :: "'f remote_sync \<Rightarrow> ref \<Rightarrow> uuid" where
  "uuid_of st object = uuid (heap st object)"

subsection \<open>The client and the listeners\<close>

definition client_send :: "'f remote_sync \<Rightarrow> peer \<Rightarrow> 'f packet \<Rightarrow> 'f remote_sync" where
  "client_send st destId data = st\<lparr>sent := sent st @ [Send destId data]\<rparr>"

definition client_broadcast :: "'f remote_sync \<Rightarrow> 'f packet \<Rightarrow> 'f remote_sync" where
  "client_broadcast st data = st\<lparr>sent := sent st @ [Broadcast data]\<rparr>"

definition invokeConnectListeners :: "'f remote_sync \<Rightarrow> peer \<Rightarrow> 'f remote_sync" where
  "invokeConnectListeners st i =
     st\<lparr>calls := calls st @ map (\<lambda>l. (l, Connect i)) (onConnects st)\<rparr>"

definition invokeDisconnectListeners :: "'f remote_sync \<Rightarrow> peer \<Rightarrow> 'f remote_sync" where
  "invokeDisconnectListeners st i =
     st\<lparr>calls := calls st @ map (\<lambda>l. (l, Disconnect i)) (onDisconnects st)\<rparr>"

text \<open>The source's name for the function that calls the \<open>remove\<close> listeners.\<close>

definition invokeRemoteListeners ::
  "'f remote_sync \<Rightarrow> peer \<Rightarrow> uuid \<Rightarrow> ref \<Rightarrow> 'f remote_sync" where
  "invokeRemoteListeners st destId objectId object =
     st\<lparr>calls := calls st @ map (\<lambda>l. (l, Remove destId objectId object)) (onRemoves st)\<rparr>"

subsection \<open>Helpers of the module\<close>

text \<open>
  \<open>removeObjectFromArray\<close>, with its loop as written: the element at \<open>readIndex\<close> is
  copied to \<open>writeIndex\<close> when \<open>array[i] === object\<close>, and the array is cut at
  \<open>writeIndex\<close>.
\<close>

function removeObjectFromArray_loop ::
  "'a list \<Rightarrow> 'a \<Rightarrow> nat \<Rightarrow> nat \<Rightarrow> nat \<Rightarrow> nat \<Rightarrow> 'a list \<times> nat" where
  "removeObjectFromArray_loop array object il i readIndex writeIndex =
     (if i < il then
        (if array ! i = object
         then removeObjectFromArray_loop (array[writeIndex := array ! readIndex]) object il
                (i + 1) (readIndex + 1) (writeIndex + 1)
         else removeObjectFromArray_loop array object il (i + 1) (readIndex + 1) writeIndex)
      else (array, writeIndex))"
  by pat_completeness auto
termination
  by (relation "measure (\<lambda>(array, object, il, i, readIndex, writeIndex). il - i)") auto

declare removeObjectFromArray_loop.simps [simp del]

definition removeObjectFromArray :: "'a list \<Rightarrow> 'a \<Rightarrow> 'a list" where
  "removeObjectFromArray array object =
     (case removeObjectFromArray_loop array object (length array) 0 0 0 of
        (array', writeIndex) \<Rightarrow> take writeIndex array')"

definition createTransferComponent :: "('f \<Rightarrow> 'f) \<Rightarrow> 'f object3d \<Rightarrow> 'f transfer" where
  "createTransferComponent r object =
     \<lparr>t_id = uuid object,
      t_sid = None,
      t_matrix = map (\<lambda>i. ensureFloat32 r (elements object ! i)) [0..<length (elements object)],
      t_morphTargetInfluences =
        (case morphTargetInfluences object of
           None \<Rightarrow> []
         | Some ws \<Rightarrow> map (\<lambda>i. ensureFloat32 r (ws ! i)) [0..<length ws])\<rparr>"

definition buildObjectsAdditionComponent ::
  "peer \<Rightarrow> 'f object3d list \<Rightarrow> (uuid \<rightharpoonup> info) \<Rightarrow> (uuid \<times> info option) component" where
  "buildObjectsAdditionComponent sourceId objects infoTable =
     \<lparr>c_id = sourceId, c_did = None, c_type = TRANSFER_TYPE_ADD,
      c_list = map (\<lambda>object. (uuid object, infoTable (uuid object))) objects\<rparr>"

definition buildObjectAdditionComponent ::
  "peer \<Rightarrow> 'f object3d \<Rightarrow> info option \<Rightarrow> (uuid \<times> info option) component" where
  "buildObjectAdditionComponent sourceId object inf0 =
     \<lparr>c_id = sourceId, c_did = None, c_type = TRANSFER_TYPE_ADD,
      c_list = [(uuid object, inf0)]\<rparr>"

definition buildObjectRemovalComponent :: "peer \<Rightarrow> 'f object3d \<Rightarrow> uuid component" where
  "buildObjectRemovalComponent sourceId object =
     \<lparr>c_id = sourceId, c_did = None, c_type = TRANSFER_TYPE_REMOVE, c_list = [uuid object]\<rparr>"

section \<open>The public operations\<close>

definition broadcastAddObjectRequest :: "'f remote_sync \<Rightarrow> ref \<Rightarrow> 'f remote_sync" where
  "broadcastAddObjectRequest st object =
     client_broadcast st
       (AddPacket (buildObjectAdditionComponent (self_id st) (heap st object)
                     (localObjectInfos st (uuid_of st object))))"

definition sendAddObjectsRequest :: "'f remote_sync \<Rightarrow> peer \<Rightarrow> 'f remote_sync" where
  "sendAddObjectsRequest st destId =
     (let component = buildObjectsAdditionComponent (self_id st)
                        (map (heap st) (localObjects st)) (localObjectInfos st)
      in client_send st destId (AddPacket (component\<lparr>c_did := Some destId\<rparr>)))"

definition broadcastRemoveObjectRequest :: "'f remote_sync \<Rightarrow> ref \<Rightarrow> 'f remote_sync" where
  "broadcastRemoveObjectRequest st object =
     client_broadcast st (RemovePacket (buildObjectRemovalComponent (self_id st) (heap st object)))"

text \<open>\<open>addLocalObject(object, info)\<close>; \<open>None\<close> is an \<open>info\<close> left \<open>undefined\<close>.\<close>

definition addLocalObject ::
  "('f \<Rightarrow> 'f) \<Rightarrow> 'f remote_sync \<Rightarrow> ref \<Rightarrow> info option \<Rightarrow> 'f remote_sync" where
  "addLocalObject r st object inf0 =
     (if localObjectTable st (uuid_of st object) \<noteq> None then st
      else
        let inf1 = (case inf0 of None \<Rightarrow> EmptyObject | Some i \<Rightarrow> i);
            st1 = st\<lparr>localObjects := localObjects st @ [object],
                     localObjectTable := (localObjectTable st)(uuid_of st object \<mapsto> object),
                     localObjectInfos := (localObjectInfos st)(uuid_of st object \<mapsto> inf1),
                     transferComponents :=
                       (transferComponents st)
                         (uuid_of st object \<mapsto> createTransferComponent r (heap st object))\<rparr>
        in if connectionNum st1 > 0 then broadcastAddObjectRequest st1 object else st1)"

definition removeLocalObject :: "'f remote_sync \<Rightarrow> ref \<Rightarrow> 'f remote_sync" where
  "removeLocalObject st object =
     (if localObjectTable st (uuid_of st object) = None then st
      else
        let st1 = st\<lparr>localObjects := removeObjectFromArray (localObjects st) object,
                     localObjectTable := (localObjectTable st)(uuid_of st object := None),
                     localObjectInfos := (localObjectInfos st)(uuid_of st object := None),
                     transferComponents := (transferComponents st)(uuid_of st object := None)\<rparr>
        in if connectionNum st1 > 0 then broadcastRemoveObjectRequest st1 object else st1)"

definition addRemoteObject ::
  "'f remote_sync \<Rightarrow> peer \<Rightarrow> uuid \<Rightarrow> ref \<Rightarrow> 'f remote_sync" where
  "addRemoteObject st destId objectId object =
     (let st1 = (case remoteObjectTable st destId of
                   None \<Rightarrow> st\<lparr>remoteObjectTable := (remoteObjectTable st)(destId \<mapsto> [])\<rparr>
                 | Some _ \<Rightarrow> st);
          objects = (case remoteObjectTable st1 destId of None \<Rightarrow> [] | Some os \<Rightarrow> os)
      in if map_of objects objectId \<noteq> None then st1
         else st1\<lparr>remoteObjectTable :=
                    (remoteObjectTable st1)(destId \<mapsto> objects @ [(objectId, object)])\<rparr>)"

definition addSharedObject ::
  "('f \<Rightarrow> 'f) \<Rightarrow> 'f remote_sync \<Rightarrow> ref \<Rightarrow> shared_id \<Rightarrow> 'f remote_sync" where
  "addSharedObject r st object sid =
     (if sharedObjectTable st sid \<noteq> None
      then st\<lparr>warnings := warnings st @
                 [''THREE.RemoteSystem.addSharedObject: Shared id '' @ sid @ '' is already used.'']\<rparr>
      else st\<lparr>sharedObjects := sharedObjects st @ [object],
              sharedObjectTable := (sharedObjectTable st)(sid \<mapsto> object),
              transferComponents :=
                (transferComponents st)
                  (uuid_of st object \<mapsto> (createTransferComponent r (heap st object))\<lparr>t_sid := Some sid\<rparr>)\<rparr>)"

section \<open>Change detection and serialization\<close>

text \<open>
  The comparison loop of \<open>checkUpdate\<close>: true when some index \<open>i\<close> below the length of the
  component's array has \<open>ensureFloat32(array[i]) !== ensureFloat32(array2[i])\<close>.
\<close>

definition differs :: "('f \<Rightarrow> 'f) \<Rightarrow> 'f jsval list \<Rightarrow> 'f jsval list \<Rightarrow> bool" where
  "differs r array array2 =
     list_ex (\<lambda>i. \<not> strict_eq (ensureFloat32 r (array ! i)) (ensureFloat32 r (js_index array2 i)))
       [0..<length array]"

text \<open>
  A component that is \<open>undefined\<close> makes \<open>component.matrix\<close> throw a TypeError.
\<close>

definition checkUpdate :: "('f \<Rightarrow> 'f) \<Rightarrow> 'f remote_sync \<Rightarrow> ref \<Rightarrow> js_error + bool" where
  "checkUpdate r st object =
     (case transferComponents st (uuid_of st object) of
        None \<Rightarrow> Inl TypeError
      | Some component \<Rightarrow>
          if differs r (t_matrix component) (elements (heap st object)) then Inr True
          else (case morphTargetInfluences (heap st object) of
                  None \<Rightarrow> Inr False
                | Some array2 \<Rightarrow> Inr (differs r (t_morphTargetInfluences component) array2)))"

text \<open>The copy loop of \<open>serialize\<close>: \<open>array[i] = ensureFloat32(array2[i])\<close> for every index of \<open>array\<close>.\<close>

definition refill :: "('f \<Rightarrow> 'f) \<Rightarrow> 'f jsval list \<Rightarrow> 'f jsval list \<Rightarrow> 'f jsval list" where
  "refill r array array2 = map (\<lambda>i. ensureFloat32 r (js_index array2 i)) [0..<length array]"

text \<open>
  \<open>serialize\<close> rewrites the object's component in place and returns it; the model returns
  the key under which the component is stored, which stands for the reference.
\<close>

definition serialize ::
  "('f \<Rightarrow> 'f) \<Rightarrow> 'f remote_sync \<Rightarrow> ref \<Rightarrow> js_error + ('f remote_sync \<times> uuid)" where
  "serialize r st object =
     (case transferComponents st (uuid_of st object) of
        None \<Rightarrow> Inl TypeError
      | Some component \<Rightarrow>
          let c1 = component\<lparr>t_matrix := refill r (t_matrix component) (elements (heap st object))\<rparr>;
              c2 = (case morphTargetInfluences (heap st object) of
                      None \<Rightarrow> c1
                    | Some array2 \<Rightarrow>
                        c1\<lparr>t_morphTargetInfluences :=
                             refill r (t_morphTargetInfluences component) array2\<rparr>)
          in Inr (st\<lparr>transferComponents := (transferComponents st)(uuid_of st object \<mapsto> c2)\<rparr>,
                  uuid_of st object))"

text \<open>
  \<open>deserialize\<close>. \<open>Matrix4.fromArray\<close> is three.js's: it copies sixteen entries of the
  array into the matrix. \<open>decompose\<close> writes position, quaternion and scale, which the
  engine never reads, so they are not part of the model. A record's blend weights are
  copied over the object's, which JavaScript extends when the record has more.
\<close>

definition fromArray :: "'f jsval list \<Rightarrow> 'f jsval list" where
  "fromArray array = map (js_index array) [0..<16]"

definition deserialize :: "'f remote_sync \<Rightarrow> ref \<Rightarrow> 'f transfer \<Rightarrow> 'f remote_sync" where
  "deserialize st object component =
     (let o1 = (heap st object)\<lparr>elements := fromArray (t_matrix component)\<rparr>;
          o2 = (case morphTargetInfluences o1 of
                  None \<Rightarrow> o1
                | Some array2 \<Rightarrow>
                    if length (t_morphTargetInfluences component) > 0
                    then o1\<lparr>morphTargetInfluences :=
                              Some (t_morphTargetInfluences component
                                    @ drop (length (t_morphTargetInfluences component)) array2)\<rparr>
                    else o1)
      in st\<lparr>heap := (heap st)(object := o2)\<rparr>)"

section \<open>sync\<close>

text \<open>
  The inner loop of \<open>sync\<close> over one of the two arrays. \<open>list\<close> holds references to the
  components pushed so far. With \<open>force\<close> the check is not evaluated.
\<close>

fun sync_array ::
  "('f \<Rightarrow> 'f) \<Rightarrow> bool \<Rightarrow> ref list \<Rightarrow> 'f remote_sync \<times> uuid list
     \<Rightarrow> js_error + ('f remote_sync \<times> uuid list)" where
  "sync_array r force [] acc = Inr acc"
| "sync_array r force (object # array) (st, list) =
     (case (if force then Inr True else checkUpdate r st object) of
        Inl e \<Rightarrow> Inl e
      | Inr False \<Rightarrow> sync_array r force array (st, list)
      | Inr True \<Rightarrow>
          (case serialize r st object of
             Inl e \<Rightarrow> Inl e
           | Inr (st', c) \<Rightarrow> sync_array r force array (st', list @ [c])))"

text \<open>The two passes: local objects, then shared objects unless \<open>onlyLocal\<close>.\<close>

definition sync_scan ::
  "('f \<Rightarrow> 'f) \<Rightarrow> 'f remote_sync \<Rightarrow> bool \<Rightarrow> bool \<Rightarrow> js_error + ('f remote_sync \<times> uuid list)" where
  "sync_scan r st force onlyLocal =
     (case sync_array r force (localObjects st) (st, []) of
        Inl e \<Rightarrow> Inl e
      | Inr (st1, list1) \<Rightarrow>
          if onlyLocal then Inr (st1, list1)
          else sync_array r force (sharedObjects st1) (st1, list1))"

text \<open>The components a list of references stands for when the message is handed over.\<close>

definition resolve :: "'f remote_sync \<Rightarrow> uuid list \<Rightarrow> 'f transfer list" where
  "resolve st list = List.map_filter (transferComponents st) list"

definition sync :: "('f \<Rightarrow> 'f) \<Rightarrow> 'f remote_sync \<Rightarrow> bool \<Rightarrow> bool \<Rightarrow> js_error + 'f remote_sync" where
  "sync r st force onlyLocal =
     (case sync_scan r st force onlyLocal of
        Inl e \<Rightarrow> Inl e
      | Inr (st', list) \<Rightarrow>
          if length list > 0
          then Inr (client_broadcast st'
                 (SyncPacket \<lparr>c_id = self_id st', c_did = None, c_type = TRANSFER_TYPE_SYNC,
                              c_list = resolve st' list\<rparr>))
          else Inr st')"

section \<open>Reading a table\<close>

text \<open>
  The registries are plain objects (\<open>{}\<close>) and the code tests \<open>table[key] !== undefined\<close>.
  Such a read also finds what every plain object inherits from its prototype (\<open>toString\<close>,
  \<open>constructor\<close> and so on), unless the table has a property of its own under the key.
  What is inherited belongs to the platform and is a parameter: \<open>inherits env key\<close> tells
  whether plain objects inherit a member named \<open>key\<close>, and \<open>member_has env key p\<close> whether
  reading the property \<open>p\<close> of that member gives something other than \<open>undefined\<close>.

  The handlers of received messages read the tables with ids that a remote peer sent, and
  their reads are modelled this way. The operations that the application calls are
  modelled for keys that are not names of inherited members: the uuids that three.js
  generates, and the peer ids and shared ids that the application registers.
\<close>

record platform =
  inherits :: "string \<Rightarrow> bool"
  member_has :: "string \<Rightarrow> string \<Rightarrow> bool"

text \<open>
  What a read gives: \<open>undefined\<close>, a value the engine stored itself, or a foreign value (an
  inherited member, or a property of one), which is neither \<open>undefined\<close> nor an object of
  the engine.
\<close>

datatype 'a property = Absent | Own 'a | Foreign

definition js_get :: "platform \<Rightarrow> (string \<rightharpoonup> 'a) \<Rightarrow> string \<Rightarrow> 'a property" where
  "js_get env table key =
     (case table key of
        Some v \<Rightarrow> Own v
      | None \<Rightarrow> if inherits env key then Foreign else Absent)"

section \<open>Handlers of the client's events\<close>

text \<open>The listener of the client's \<open>connect\<close> event, \<open>function ( id, fromRemote )\<close>.\<close>

definition on_connect ::
  "('f \<Rightarrow> 'f) \<Rightarrow> 'f remote_sync \<Rightarrow> peer \<Rightarrow> bool \<Rightarrow> js_error + 'f remote_sync" where
  "on_connect r st i fromRemote =
     (let st1 = invokeConnectListeners st i;
          st2 = sendAddObjectsRequest st1 i
      in sync r st2 True (\<not> fromRemote))"

definition removeRemoteObject :: "'f remote_sync \<Rightarrow> peer \<Rightarrow> uuid \<Rightarrow> 'f remote_sync" where
  "removeRemoteObject st destId objectId =
     (case remoteObjectTable st destId of
        None \<Rightarrow> st
      | Some objects \<Rightarrow>
          (case map_of objects objectId of
             None \<Rightarrow> st
           | Some object \<Rightarrow>
               invokeRemoteListeners
                 (st\<lparr>remoteObjectTable :=
                       (remoteObjectTable st)(destId \<mapsto> AList.delete objectId objects)\<rparr>)
                 destId objectId object))"

text \<open>The listener of the client's \<open>disconnect\<close> event.\<close>

definition on_disconnect :: "'f remote_sync \<Rightarrow> peer \<Rightarrow> 'f remote_sync" where
  "on_disconnect st i =
     (let st1 = invokeDisconnectListeners st i
      in case remoteObjectTable st1 i of
           None \<Rightarrow> st1
         | Some objects \<Rightarrow>
             let keys = map fst objects;
                 st2 = fold (\<lambda>k s. removeRemoteObject s i k) keys st1
             in st2\<lparr>remoteObjectTable := (remoteObjectTable st2)(i := None)\<rparr>)"

text \<open>
  \<open>handleSyncRequest\<close>: the loop over the records, \<open>objects\<close> read once before it. The ids
  of a record come from the remote peer, so the three reads (\<open>remoteObjectTable[destId]\<close>,
  \<open>sharedObjectTable[sharedId]\<close>, \<open>objects[objectId]\<close>) are reads of plain objects as
  described above. The test \<open>object === undefined\<close> skips the record only when the read gave
  \<open>undefined\<close>. A foreign value goes on to \<open>deserialize\<close>, which evaluates
  \<open>object.matrix.fromArray\<close>: a foreign value has no \<open>matrix\<close>, and a TypeError is thrown.
\<close>

fun handleSyncRequest_loop ::
  "platform \<Rightarrow> ('f \<Rightarrow> 'f) \<Rightarrow> peer \<Rightarrow> (uuid \<times> ref) list property \<Rightarrow> 'f transfer list
     \<Rightarrow> 'f remote_sync \<Rightarrow> js_error + 'f remote_sync" where
  "handleSyncRequest_loop env r destId objects [] st = Inr st"
| "handleSyncRequest_loop env r destId objects (entry # list) st =
     (case (case t_sid entry of
              Some sharedId \<Rightarrow> js_get env (sharedObjectTable st) sharedId
            | None \<Rightarrow>
                (case objects of
                   Absent \<Rightarrow> Absent
                 | Own os \<Rightarrow> js_get env (map_of os) (t_id entry)
                 | Foreign \<Rightarrow>
                     if member_has env destId (t_id entry) then Foreign else Absent)) of
        Absent \<Rightarrow> handleSyncRequest_loop env r destId objects list st
      | Foreign \<Rightarrow> Inl TypeError
      | Own object \<Rightarrow>
          (let st1 = deserialize st object entry
           in case t_sid entry of
                None \<Rightarrow> handleSyncRequest_loop env r destId objects list st1
              | Some sharedId \<Rightarrow>
                  (case serialize r st1 object of
                     Inl e \<Rightarrow> Inl e
                   | Inr (st2, c) \<Rightarrow> handleSyncRequest_loop env r destId objects list st2)))"

definition handleSyncRequest ::
  "platform \<Rightarrow> ('f \<Rightarrow> 'f) \<Rightarrow> 'f remote_sync \<Rightarrow> 'f transfer component
     \<Rightarrow> js_error + 'f remote_sync" where
  "handleSyncRequest env r st component =
     handleSyncRequest_loop env r (c_id component)
       (js_get env (remoteObjectTable st) (c_id component)) (c_list component) st"

text \<open>
  \<open>handleRemoveRequest\<close>: the first statement of the loop body that reads the table names
  \<open>objests\<close>, a variable that is declared nowhere, so evaluating it throws a
  ReferenceError before anything else happens.
\<close>

fun handleRemoveRequest_loop :: "uuid list \<Rightarrow> 'f remote_sync \<Rightarrow> js_error + 'f remote_sync" where
  "handleRemoveRequest_loop [] st = Inr st"
| "handleRemoveRequest_loop (objectId # list) st = Inl ReferenceError"

definition handleRemoveRequest ::
  "platform \<Rightarrow> 'f remote_sync \<Rightarrow> uuid component \<Rightarrow> js_error + 'f remote_sync" where
  "handleRemoveRequest env st component =
     (case js_get env (remoteObjectTable st) (c_id component) of
        Absent \<Rightarrow> Inr st
      | Own objects \<Rightarrow> handleRemoveRequest_loop (c_list component) st
      | Foreign \<Rightarrow> handleRemoveRequest_loop (c_list component) st)"

section \<open>Notions of the specification\<close>

text \<open>The remote entities mirrored under a peer: its table, empty when there is none.\<close>

definition mirrors :: "'f remote_sync \<Rightarrow> peer \<Rightarrow> (uuid \<times> ref) list" where
  "mirrors st P = (case remoteObjectTable st P of None \<Rightarrow> [] | Some objects \<Rightarrow> objects)"

text \<open>
  One \<open>remove\<close> notification for each of the given entities, in their order: every
  registered \<open>remove\<close> listener is called with \<open>(P, entity_id, mirror)\<close>.
\<close>

definition remove_calls ::
  "'f remote_sync \<Rightarrow> peer \<Rightarrow> (uuid \<times> ref) list \<Rightarrow> (listener \<times> event) list" where
  "remove_calls st P objects =
     concat (map (\<lambda>(k, m). map (\<lambda>l. (l, Remove P k m)) (onRemoves st)) objects)"



text \<open>
  Two channel arrays are the same at 32-bit float precision: they have the same length and
  at every index the two values are the same value once both went through
  \<open>ensureFloat32\<close>. A channel that was NaN and is NaN is the same.
\<close>

definition same_at_float32 :: "('f \<Rightarrow> 'f) \<Rightarrow> 'f jsval list \<Rightarrow> 'f jsval list \<Rightarrow> bool" where
  "same_at_float32 r snapshot live =
     list_all2 (\<lambda>a b. ensureFloat32 r a = ensureFloat32 r b) snapshot live"

text \<open>
  An entity is unchanged since its Snapshot was last written: it has a Snapshot, and its
  transform channels and, when it has any, its blend-weight channels are the same as the
  Snapshot's at 32-bit float precision.
\<close>

definition unchanged :: "('f \<Rightarrow> 'f) \<Rightarrow> 'f remote_sync \<Rightarrow> ref \<Rightarrow> bool" where
  "unchanged r st object =
     (case transferComponents st (uuid_of st object) of
        None \<Rightarrow> False
      | Some c \<Rightarrow>
          same_at_float32 r (t_matrix c) (elements (heap st object))
          \<and> (case morphTargetInfluences (heap st object) of
                None \<Rightarrow> True
              | Some ws \<Rightarrow> same_at_float32 r (t_morphTargetInfluences c) ws))"

text \<open>
  The invariants of the spec's data model: every entity in the local and the shared
  sequence has a Snapshot with the entity's channel counts, and no two of these entities
  have the same entity id.
\<close>

definition snapshot_fits :: "'f remote_sync \<Rightarrow> ref \<Rightarrow> bool" where
  "snapshot_fits st object =
     (case transferComponents st (uuid_of st object) of
        None \<Rightarrow> False
      | Some c \<Rightarrow>
          length (t_matrix c) = length (elements (heap st object))
          \<and> (case morphTargetInfluences (heap st object) of
                None \<Rightarrow> True
              | Some ws \<Rightarrow> length (t_morphTargetInfluences c) = length ws))"

definition registry_ok :: "'f remote_sync \<Rightarrow> bool" where
  "registry_ok st =
     (list_all (snapshot_fits st) (localObjects st @ sharedObjects st)
      \<and> distinct (map (uuid_of st) (localObjects st @ sharedObjects st)))"

definition has_snapshot :: "'f remote_sync \<Rightarrow> ref \<Rightarrow> bool" where
  "has_snapshot st object = (transferComponents st (uuid_of st object) \<noteq> None)"

text \<open>
  The entities a forced \<open>sync\<close> covers after a connect. \<open>fromRemote\<close> is the second argument
  of the client's \<open>connect\<close> event, "if a remote peer sends connection request": it is true
  on the side that did not initiate the connection.
\<close>

definition connect_scope :: "'f remote_sync \<Rightarrow> bool \<Rightarrow> ref list" where
  "connect_scope st fromRemote = localObjects st @ (if fromRemote then sharedObjects st else [])"

text \<open>What was observed: the entity ids in each SYNC message that was broadcast.\<close>

definition sync_ids_sent :: "js_error + 'f remote_sync \<Rightarrow> uuid list list" where
  "sync_ids_sent result =
     (case result of
        Inl e \<Rightarrow> []
      | Inr st \<Rightarrow>
          concat (map (\<lambda>m. case m of Broadcast (SyncPacket c) \<Rightarrow> [map t_id (c_list c)] | _ \<Rightarrow> [])
                    (sent st)))"

text \<open>A channel value that is a number other than NaN.\<close>

fun is_number :: "'f jsval \<Rightarrow> bool" where
  "is_number (Num x) = True"
| "is_number _ = False"

text \<open>All channels of an object are numbers other than NaN.\<close>

definition numeric :: "'f object3d \<Rightarrow> bool" where
  "numeric object =
     (list_all is_number (elements object)
      \<and> (case morphTargetInfluences object of
            None \<Rightarrow> True
          | Some ws \<Rightarrow> list_all is_number ws))"

text \<open>
  The record of an entity in a SYNC message: its Snapshot, holding the entity's transform
  channels and, when it has any, its blend-weight channels, at 32-bit float precision.
\<close>

definition record_for :: "('f \<Rightarrow> 'f) \<Rightarrow> 'f remote_sync \<Rightarrow> ref \<Rightarrow> 'f transfer option" where
  "record_for r st object =
     (case transferComponents st (uuid_of st object) of
        None \<Rightarrow> None
      | Some c \<Rightarrow>
          Some (c\<lparr>t_matrix := map (ensureFloat32 r) (elements (heap st object)),
                  t_morphTargetInfluences :=
                    (case morphTargetInfluences (heap st object) of
                       None \<Rightarrow> t_morphTargetInfluences c
                     | Some ws \<Rightarrow> map (ensureFloat32 r) ws)\<rparr>))"

text \<open>The Snapshot that \<open>serialize\<close> leaves for an object.\<close>

definition snapshot_after :: "('f \<Rightarrow> 'f) \<Rightarrow> 'f remote_sync \<Rightarrow> ref \<Rightarrow> 'f transfer option" where
  "snapshot_after r st object =
     (case serialize r st object of
        Inl e \<Rightarrow> None
      | Inr (st', k) \<Rightarrow> transferComponents st' k)"

text \<open>
  The record list of the \<open>sync(false)\<close> that is called in the state a call returned.
\<close>

definition then_sync ::
  "('f \<Rightarrow> 'f) \<Rightarrow> js_error + 'f remote_sync \<Rightarrow> js_error + uuid list" where
  "then_sync r result =
     (case result of
        Inl e \<Rightarrow> Inl e
      | Inr st \<Rightarrow>
          (case sync_scan r st False False of
             Inl e \<Rightarrow> Inl e
           | Inr (st', list) \<Rightarrow> Inr list))"

section \<open>The constructor, and the states used as concrete inputs\<close>

text \<open>
  \<open>THREE.RemoteSync = function ( client )\<close>: empty registries and no listeners. The
  client's id, the objects and the client's number of connections are given.
\<close>

definition RemoteSync_new :: "peer \<Rightarrow> (ref \<Rightarrow> 'f object3d) \<Rightarrow> nat \<Rightarrow> 'f remote_sync" where
  "RemoteSync_new client_id objects n =
     \<lparr>self_id = client_id, localObjects = [], localObjectTable = Map.empty,
      localObjectInfos = Map.empty, remoteObjectTable = Map.empty, sharedObjects = [],
      sharedObjectTable = Map.empty, transferComponents = Map.empty,
      onConnects = [], onDisconnects = [], onRemoves = [],
      heap = objects, connectionNum = n, sent = [], calls = [], warnings = []\<rparr>"

text \<open>
  A rounding to use in concrete inputs: numbers are integers and the rounding clears the
  two low bits, so that \<open>5\<close> and \<open>4\<close> are the same at the reduced precision.
\<close>

definition round4 :: "int \<Rightarrow> int" where
  "round4 x = 4 * (x div 4)"

definition matrix0 :: "int jsval list" where
  "matrix0 = map Num [4, 0, 0, 0, 0, 4, 0, 0, 0, 0, 4, 0, 0, 0, 0, 4]"

definition objects0 :: "ref \<Rightarrow> int object3d" where
  "objects0 =
     (\<lambda>_. \<lparr>uuid = [], elements = [], morphTargetInfluences = None\<rparr>)
     (1 := \<lparr>uuid = ''a'', elements = matrix0, morphTargetInfluences = None\<rparr>,
      2 := \<lparr>uuid = ''b'', elements = matrix0, morphTargetInfluences = Some [Num 8]\<rparr>,
      3 := \<lparr>uuid = ''c'', elements = matrix0, morphTargetInfluences = None\<rparr>)"

text \<open>
  A platform for the concrete inputs: the members that ECMAScript gives to
  \<open>Object.prototype\<close>, and of the properties of such a member those that it inherits in turn
  and those that every function has.
\<close>

definition ecmascript :: platform where
  "ecmascript =
     \<lparr>inherits = (\<lambda>key. key \<in> set
        [''constructor'', ''hasOwnProperty'', ''isPrototypeOf'', ''propertyIsEnumerable'',
         ''toLocaleString'', ''toString'', ''valueOf'', ''__proto__'',
         ''__defineGetter__'', ''__defineSetter__'', ''__lookupGetter__'', ''__lookupSetter__'']),
      member_has = (\<lambda>key p. p \<in> set
        [''constructor'', ''hasOwnProperty'', ''isPrototypeOf'', ''propertyIsEnumerable'',
         ''toLocaleString'', ''toString'', ''valueOf'', ''__proto__'',
         ''__defineGetter__'', ''__defineSetter__'', ''__lookupGetter__'', ''__lookupSetter__'',
         ''length'', ''name'', ''apply'', ''bind'', ''call''])\<rparr>"

text \<open>Objects 1 and 2 registered as local objects, one peer connected.\<close>

definition two_locals :: "int remote_sync" where
  "two_locals =
     addLocalObject round4 (addLocalObject round4 (RemoteSync_new ''me'' objects0 1) 1 None) 2 None"

text \<open>Peer \<open>p\<close> has the remote objects \<open>x\<close> and \<open>y\<close> mirrored by objects 1 and 3.\<close>

definition two_mirrors :: "int remote_sync" where
  "two_mirrors =
     addRemoteObject
       (addRemoteObject ((RemoteSync_new ''me'' objects0 1)\<lparr>onRemoves := [7], onDisconnects := [8]\<rparr>)
          ''p'' ''x'' 1)
       ''p'' ''y'' 3"

text \<open>Object 3 shared under the id \<open>s\<close>.\<close>

definition one_shared :: "int remote_sync" where
  "one_shared = addSharedObject round4 (RemoteSync_new ''me'' objects0 1) 3 ''s''"

text \<open>Objects 1 and 2 local and object 3 shared under \<open>s\<close>.\<close>

definition all_registered :: "int remote_sync" where
  "all_registered = addSharedObject round4 two_locals 3 ''s''"

text \<open>
  The application then moves object 1 by less than the precision (\<open>5\<close> rounds to \<open>4\<close>) and
  sets the blend weight of object 2 to another value.
\<close>

definition after_motion :: "int remote_sync" where
  "after_motion =
     all_registered\<lparr>heap := (heap all_registered)
       (1 := (heap all_registered 1)\<lparr>elements := (elements (heap all_registered 1))[0 := Num 5]\<rparr>,
        2 := (heap all_registered 2)\<lparr>morphTargetInfluences := Some [Num 12]\<rparr>)\<rparr>"

text \<open>
  An object whose first transform channel is NaN, registered as a local object and not
  touched afterwards.
\<close>

definition nan_local :: "int remote_sync" where
  "nan_local =
     addLocalObject round4
       (RemoteSync_new ''me''
          (objects0(4 := \<lparr>uuid = ''n'', elements = matrix0[0 := NaN],
                           morphTargetInfluences = None\<rparr>)) 1)
       4 None"

text \<open>
  Two SYNC records for the shared id \<open>s\<close>: one whose first transform channel is NaN, and
  one that is a proper transform.
\<close>

definition nan_record :: "int transfer" where
  "nan_record =
     \<lparr>t_id = ''q'', t_sid = Some ''s'', t_matrix = matrix0[0 := NaN],
      t_morphTargetInfluences = []\<rparr>"

definition moved_record :: "int transfer" where
  "moved_record =
     \<lparr>t_id = ''q'', t_sid = Some ''s'', t_matrix = matrix0[3 := Num 41],
      t_morphTargetInfluences = []\<rparr>"

section \<open>Facts about the helpers and the loops\<close>

lemma removeObjectFromArray_loop_keeps:
  "wr \<le> i \<Longrightarrow> rd = i \<Longrightarrow> il = length array \<Longrightarrow>
   removeObjectFromArray_loop array object il i rd wr = (array', w) \<Longrightarrow>
   take w array' = take wr array @ filter (\<lambda>x. x = object) (drop i array)"
proof (induction array object il i rd wr arbitrary: array' w
         rule: removeObjectFromArray_loop.induct)
  case (1 array object il i rd wr)
  show ?case
  proof (cases "i < il")
    case False
    with "1.prems" show ?thesis
      by (simp add: removeObjectFromArray_loop.simps)
  next
    case True
    note lt = True
    have split: "drop i array = array ! i # drop (i + 1) array"
      using lt "1.prems" by (simp add: Cons_nth_drop_Suc)
    show ?thesis
    proof (cases "array ! i = object")
      case True
      with lt "1.prems" have run:
        "removeObjectFromArray_loop (array[wr := array ! rd]) object il (i + 1) (rd + 1) (wr + 1)
           = (array', w)"
        by (simp add: removeObjectFromArray_loop.simps [of array])
      have "take w array' = take (wr + 1) (array[wr := array ! rd])
              @ filter (\<lambda>x. x = object) (drop (i + 1) (array[wr := array ! rd]))"
        using "1.IH"(1) [OF lt True _ _ _ run] "1.prems" by simp
      moreover have "take (wr + 1) (array[wr := array ! rd]) = take wr array @ [array ! i]"
        using lt "1.prems" by (simp add: take_Suc_conv_app_nth)
      moreover have "drop (i + 1) (array[wr := array ! rd]) = drop (i + 1) array"
        using "1.prems" by simp
      ultimately show ?thesis using True split by simp
    next
      case False
      with lt "1.prems" have run:
        "removeObjectFromArray_loop array object il (i + 1) (rd + 1) wr = (array', w)"
        by (simp add: removeObjectFromArray_loop.simps [of array])
      have "take w array' = take wr array @ filter (\<lambda>x. x = object) (drop (i + 1) array)"
        using "1.IH"(2) [OF lt False _ _ _ run] "1.prems" by simp
      then show ?thesis using False split by simp
    qed
  qed
qed

text \<open>The loop keeps exactly the elements that are the object, and drops all others.\<close>

lemma removeObjectFromArray_filter:
  "removeObjectFromArray array object = filter (\<lambda>x. x = object) array"
proof -
  obtain array' w where run:
    "removeObjectFromArray_loop array object (length array) 0 0 0 = (array', w)"
    by (cases "removeObjectFromArray_loop array object (length array) 0 0 0")
  from removeObjectFromArray_loop_keeps [OF _ _ _ run] show ?thesis
    by (simp add: removeObjectFromArray_def run)
qed

lemma fold_removeRemoteObject:
  "remoteObjectTable s P = Some os \<Longrightarrow> distinct (map fst os) \<Longrightarrow>
   fold (\<lambda>k s. removeRemoteObject s P k) (map fst os) s =
     s\<lparr>remoteObjectTable := (remoteObjectTable s)(P \<mapsto> []),
       calls := calls s @ remove_calls s P os\<rparr>"
proof (induction os arbitrary: s)
  case Nil
  then have "(remoteObjectTable s)(P \<mapsto> []) = remoteObjectTable s"
    by (simp add: fun_upd_idem)
  then show ?case by (simp add: remove_calls_def)
next
  case (Cons e os)
  obtain k m where e: "e = (k, m)" by (cases e)
  let ?s1 = "removeRemoteObject s P k"
  from Cons.prems e have notin: "k \<notin> fst ` set os" by simp
  then have del: "AList.delete k os = os"
    by (simp add: AList.delete_id)
  from Cons.prems e del have s1: "?s1 =
      s\<lparr>remoteObjectTable := (remoteObjectTable s)(P \<mapsto> os),
        calls := calls s @ map (\<lambda>l. (l, Remove P k m)) (onRemoves s)\<rparr>"
    by (simp add: removeRemoteObject_def invokeRemoteListeners_def)
  have tab: "remoteObjectTable ?s1 P = Some os" by (simp add: s1)
  from Cons.prems have dist: "distinct (map fst os)" by simp
  have "fold (\<lambda>k s. removeRemoteObject s P k) (map fst (e # os)) s
          = fold (\<lambda>k s. removeRemoteObject s P k) (map fst os) ?s1"
    by (simp add: e)
  also have "\<dots> = ?s1\<lparr>remoteObjectTable := (remoteObjectTable ?s1)(P \<mapsto> []),
                       calls := calls ?s1 @ remove_calls ?s1 P os\<rparr>"
    by (rule Cons.IH [OF tab dist])
  also have "\<dots> = s\<lparr>remoteObjectTable := (remoteObjectTable s)(P \<mapsto> []),
                     calls := calls s @ remove_calls s P (e # os)\<rparr>"
    by (simp add: s1 e remove_calls_def)
  finally show ?case .
qed

lemma remove_calls_count:
  "distinct (map fst os) \<Longrightarrow> (k, m) \<in> set os \<Longrightarrow>
   filter (\<lambda>c. snd c = Remove P k m) (remove_calls st P os) = map (\<lambda>l. (l, Remove P k m)) (onRemoves st)"
proof (induction os)
  case Nil
  then show ?case by simp
next
  case (Cons e os)
  obtain k' m' where e: "e = (k', m')" by (cases e)
  have same: "filter (\<lambda>c. snd c = Remove P k m) (map (\<lambda>l. (l, Remove P k m)) (onRemoves st))
               = map (\<lambda>l. (l, Remove P k m)) (onRemoves st)"
    by (induction "onRemoves st") (simp_all add: filter_map comp_def)
  have other: "k' \<noteq> k \<Longrightarrow> filter (\<lambda>c. snd c = Remove P k m) (map (\<lambda>l. (l, Remove P k' m')) (onRemoves st)) = []"
    by (simp add: filter_empty_conv)
  have none: "k \<notin> fst ` set os \<Longrightarrow> filter (\<lambda>c. snd c = Remove P k m) (remove_calls st P os) = []"
    by (force simp add: remove_calls_def filter_empty_conv)
  show ?case
  proof (cases "k' = k")
    case True
    with Cons.prems e have "m' = m" and "k \<notin> fst ` set os"
      by (auto simp add: rev_image_eqI)
    with True e same none show ?thesis by (simp add: remove_calls_def)
  next
    case False
    with Cons.prems e have "(k, m) \<in> set os" and "distinct (map fst os)" by auto
    with Cons.IH False e other show ?thesis by (simp add: remove_calls_def)
  qed
qed





lemma map_by_index: "map (\<lambda>i. f (xs ! i)) [0..<length xs] = map f xs"
proof (rule nth_equalityI)
  show "length (map (\<lambda>i. f (xs ! i)) [0..<length xs]) = length (map f xs)" by simp
next
  fix i
  assume "i < length (map (\<lambda>i. f (xs ! i)) [0..<length xs])"
  then show "map (\<lambda>i. f (xs ! i)) [0..<length xs] ! i = map f xs ! i" by simp
qed

lemma strict_eq_float32:
  "strict_eq (ensureFloat32 r a) (ensureFloat32 r b)
     = (ensureFloat32 r a = ensureFloat32 r b \<and> is_number b)"
  by (cases a; cases b) simp_all

lemma differs_iff:
  "length array = length array2 \<Longrightarrow>
   differs r array array2 = (\<not> (same_at_float32 r array array2 \<and> list_all is_number array2))"
  by (auto simp add: differs_def same_at_float32_def list_ex_iff js_index_def
        list_all2_conv_all_nth list_all_length strict_eq_float32)

text \<open>
  What \<open>checkUpdate\<close> decides: an entity is reported as updated unless it is unchanged and
  all its channels are numbers other than NaN.
\<close>

lemma checkUpdate_unchanged:
  "snapshot_fits st object \<Longrightarrow>
   checkUpdate r st object = Inr (\<not> (unchanged r st object \<and> numeric (heap st object)))"
  by (auto simp add: snapshot_fits_def checkUpdate_def unchanged_def numeric_def differs_iff
        split: option.splits)

lemma refill_fits:
  "length array = length live \<Longrightarrow> refill r array live = map (ensureFloat32 r) live"
proof -
  assume len: "length array = length live"
  have "map (\<lambda>i. ensureFloat32 r (js_index live i)) [0..<length live]
          = map (\<lambda>i. ensureFloat32 r (live ! i)) [0..<length live]"
    by (rule map_cong) (simp_all add: js_index_def)
  with len show ?thesis by (simp add: refill_def map_by_index)
qed

lemma snapshot_after_fits:
  "snapshot_fits st object \<Longrightarrow> snapshot_after r st object = record_for r st object"
  by (auto simp add: snapshot_fits_def snapshot_after_def record_for_def serialize_def Let_def
        refill_fits split: option.splits)

lemma snapshot_after_same_component:
  "tc (uuid_of st object) = transferComponents st (uuid_of st object) \<Longrightarrow>
   snapshot_after r (st\<lparr>transferComponents := tc\<rparr>) object = snapshot_after r st object"
  by (simp add: snapshot_after_def serialize_def uuid_of_def Let_def split: option.splits)

lemma uuid_of_transferComponents [simp]:
  "uuid_of (st\<lparr>transferComponents := tc\<rparr>) = uuid_of st"
  by (simp add: uuid_of_def fun_eq_iff)

lemma checkUpdate_total:
  "transferComponents st (uuid_of st object) \<noteq> None \<Longrightarrow> \<exists>b. checkUpdate r st object = Inr b"
  by (auto simp add: checkUpdate_def split: option.splits)

lemma serialize_total:
  "transferComponents st (uuid_of st object) \<noteq> None \<Longrightarrow>
   \<exists>c. serialize r st object =
          Inr (st\<lparr>transferComponents := (transferComponents st)(uuid_of st object \<mapsto> c)\<rparr>,
               uuid_of st object)"
  by (auto simp add: serialize_def Let_def split: option.splits)

lemma checkUpdate_other:
  "uuid_of st object \<noteq> u \<Longrightarrow>
   checkUpdate r (st\<lparr>transferComponents := (transferComponents st)(u \<mapsto> c)\<rparr>) object
     = checkUpdate r st object"
  by (simp add: checkUpdate_def split: option.splits)

lemma sync_array_scan:
  "\<forall>object \<in> set array. transferComponents st (uuid_of st object) \<noteq> None \<Longrightarrow>
   distinct (map (uuid_of st) array) \<Longrightarrow>
   \<exists>tc. sync_array r False array (st, acc) =
           Inr (st\<lparr>transferComponents := tc\<rparr>,
                acc @ map (uuid_of st) (filter (\<lambda>object. checkUpdate r st object = Inr True) array))
       \<and> (\<forall>u. u \<notin> uuid_of st ` set array \<longrightarrow> tc u = transferComponents st u)
       \<and> dom tc = dom (transferComponents st)"
proof (induction array arbitrary: st acc)
  case Nil
  have "st\<lparr>transferComponents := transferComponents st\<rparr> = st" by simp
  then show ?case by (intro exI [of _ "transferComponents st"]) simp
next
  case (Cons object array)
  from Cons.prems have snap: "transferComponents st (uuid_of st object) \<noteq> None" by simp
  from checkUpdate_total [OF snap] obtain b where b: "checkUpdate r st object = Inr b" ..
  show ?case
  proof (cases b)
    case False
    from Cons.prems have p: "\<forall>object \<in> set array. transferComponents st (uuid_of st object) \<noteq> None"
      "distinct (map (uuid_of st) array)" by simp_all
    from Cons.IH [OF p, of acc] obtain tc where tc:
      "sync_array r False array (st, acc) =
           Inr (st\<lparr>transferComponents := tc\<rparr>,
                acc @ map (uuid_of st) (filter (\<lambda>object. checkUpdate r st object = Inr True) array))"
      "\<forall>u. u \<notin> uuid_of st ` set array \<longrightarrow> tc u = transferComponents st u"
      "dom tc = dom (transferComponents st)" by blast
    show ?thesis
      using b False tc by (intro exI [of _ tc]) simp
  next
    case True
    from serialize_total [OF snap] obtain c where c:
      "serialize r st object =
          Inr (st\<lparr>transferComponents := (transferComponents st)(uuid_of st object \<mapsto> c)\<rparr>,
               uuid_of st object)" ..
    let ?st1 = "st\<lparr>transferComponents := (transferComponents st)(uuid_of st object \<mapsto> c)\<rparr>"
    from Cons.prems have other: "\<forall>x \<in> set array. uuid_of st x \<noteq> uuid_of st object"
      by (auto simp add: image_iff)
    from Cons.prems have p:
      "\<forall>x \<in> set array. transferComponents ?st1 (uuid_of ?st1 x) \<noteq> None"
      "distinct (map (uuid_of ?st1) array)" by simp_all
    from Cons.IH [OF p, of "acc @ [uuid_of st object]"] obtain tc where tc:
      "sync_array r False array (?st1, acc @ [uuid_of st object]) =
           Inr (?st1\<lparr>transferComponents := tc\<rparr>,
                (acc @ [uuid_of st object])
                @ map (uuid_of ?st1) (filter (\<lambda>x. checkUpdate r ?st1 x = Inr True) array))"
      "\<forall>u. u \<notin> uuid_of ?st1 ` set array \<longrightarrow> tc u = transferComponents ?st1 u"
      "dom tc = dom (transferComponents ?st1)" by blast
    have f: "filter (\<lambda>x. checkUpdate r ?st1 x = Inr True) array
               = filter (\<lambda>x. checkUpdate r st x = Inr True) array"
      using other by (intro filter_cong) (simp_all add: checkUpdate_other)
    have d: "dom tc = dom (transferComponents st)"
      using tc(3) snap by (auto simp add: dom_def)
    have u: "\<forall>u. u \<notin> uuid_of st ` set (object # array) \<longrightarrow> tc u = transferComponents st u"
      using tc(2) by simp
    show ?thesis
      using b True c tc(1) f d u by (intro exI [of _ tc]) simp
  qed
qed

lemma sync_array_force:
  "\<forall>object \<in> set array. transferComponents st (uuid_of st object) \<noteq> None \<Longrightarrow>
   \<exists>tc. sync_array r True array (st, acc) =
           Inr (st\<lparr>transferComponents := tc\<rparr>, acc @ map (uuid_of st) array)
       \<and> dom tc = dom (transferComponents st)"
proof (induction array arbitrary: st acc)
  case Nil
  have "st\<lparr>transferComponents := transferComponents st\<rparr> = st" by simp
  then show ?case by (intro exI [of _ "transferComponents st"]) simp
next
  case (Cons object array)
  from Cons.prems have snap: "transferComponents st (uuid_of st object) \<noteq> None" by simp
  from serialize_total [OF snap] obtain c where c:
    "serialize r st object =
        Inr (st\<lparr>transferComponents := (transferComponents st)(uuid_of st object \<mapsto> c)\<rparr>,
             uuid_of st object)" ..
  let ?st1 = "st\<lparr>transferComponents := (transferComponents st)(uuid_of st object \<mapsto> c)\<rparr>"
  from Cons.prems have p:
    "\<forall>x \<in> set array. transferComponents ?st1 (uuid_of ?st1 x) \<noteq> None" by simp
  from Cons.IH [OF p, of "acc @ [uuid_of st object]"] obtain tc where tc:
    "sync_array r True array (?st1, acc @ [uuid_of st object]) =
         Inr (?st1\<lparr>transferComponents := tc\<rparr>,
              (acc @ [uuid_of st object]) @ map (uuid_of ?st1) array)"
    "dom tc = dom (transferComponents ?st1)" by blast
  have d: "dom tc = dom (transferComponents st)"
    using tc(2) snap by (auto simp add: dom_def)
  show ?case
    using c tc(1) d by (intro exI [of _ tc]) simp
qed


lemma checkUpdate_same_component:
  "tc (uuid_of st object) = transferComponents st (uuid_of st object) \<Longrightarrow>
   checkUpdate r (st\<lparr>transferComponents := tc\<rparr>) object = checkUpdate r st object"
  by (simp add: checkUpdate_def split: option.splits)

lemma sync_scan_delta:
  assumes snaps: "\<forall>object \<in> set (localObjects st @ sharedObjects st).
                    transferComponents st (uuid_of st object) \<noteq> None"
    and dist: "distinct (map (uuid_of st) (localObjects st @ sharedObjects st))"
  shows "\<exists>tc. sync_scan r st False False =
           Inr (st\<lparr>transferComponents := tc\<rparr>,
                map (uuid_of st) (filter (\<lambda>object. checkUpdate r st object = Inr True)
                                    (localObjects st @ sharedObjects st)))
       \<and> dom tc = dom (transferComponents st)"
proof -
  from snaps dist have p1:
    "\<forall>object \<in> set (localObjects st). transferComponents st (uuid_of st object) \<noteq> None"
    "distinct (map (uuid_of st) (localObjects st))" by simp_all
  from sync_array_scan [OF p1, of r "[]"] obtain tc1 where tc1:
    "sync_array r False (localObjects st) (st, []) =
       Inr (st\<lparr>transferComponents := tc1\<rparr>,
            map (uuid_of st) (filter (\<lambda>object. checkUpdate r st object = Inr True) (localObjects st)))"
    "\<forall>u. u \<notin> uuid_of st ` set (localObjects st) \<longrightarrow> tc1 u = transferComponents st u"
    "dom tc1 = dom (transferComponents st)" by auto
  let ?st1 = "st\<lparr>transferComponents := tc1\<rparr>"
  let ?l1 = "map (uuid_of st) (filter (\<lambda>object. checkUpdate r st object = Inr True) (localObjects st))"
  have keep: "\<forall>object \<in> set (sharedObjects st). tc1 (uuid_of st object) = transferComponents st (uuid_of st object)"
    using tc1(2) dist by auto
  from snaps keep have p2:
    "\<forall>object \<in> set (sharedObjects st). transferComponents ?st1 (uuid_of ?st1 object) \<noteq> None"
    by simp
  from dist have p3: "distinct (map (uuid_of ?st1) (sharedObjects st))" by simp
  from sync_array_scan [OF p2 p3, of r ?l1] obtain tc2 where tc2:
    "sync_array r False (sharedObjects st) (?st1, ?l1) =
       Inr (?st1\<lparr>transferComponents := tc2\<rparr>,
            ?l1 @ map (uuid_of ?st1)
                    (filter (\<lambda>object. checkUpdate r ?st1 object = Inr True) (sharedObjects st)))"
    "dom tc2 = dom (transferComponents ?st1)" by auto
  have f: "filter (\<lambda>object. checkUpdate r ?st1 object = Inr True) (sharedObjects st)
             = filter (\<lambda>object. checkUpdate r st object = Inr True) (sharedObjects st)"
    using keep by (intro filter_cong) (simp_all add: checkUpdate_same_component)
  have "sync_scan r st False False =
           Inr (st\<lparr>transferComponents := tc2\<rparr>,
                map (uuid_of st) (filter (\<lambda>object. checkUpdate r st object = Inr True)
                                    (localObjects st @ sharedObjects st)))"
    using tc1(1) tc2(1) f by (simp add: sync_scan_def)
  moreover have "dom tc2 = dom (transferComponents st)"
    using tc2(2) tc1(3) by simp
  ultimately show ?thesis by blast
qed

text \<open>The Snapshots after the scan: rewritten for the detected entities, as before for the others.\<close>

lemma sync_array_snapshots:
  "\<forall>object \<in> set array. transferComponents st (uuid_of st object) \<noteq> None \<Longrightarrow>
   distinct (map (uuid_of st) array) \<Longrightarrow>
   sync_array r False array (st, acc) = Inr (st', l) \<Longrightarrow>
   \<forall>object \<in> set array.
     transferComponents st' (uuid_of st object) =
       (if checkUpdate r st object = Inr True then snapshot_after r st object
        else transferComponents st (uuid_of st object))"
proof (induction array arbitrary: st acc)
  case Nil
  then show ?case by simp
next
  case (Cons object array)
  from Cons.prems have snap: "transferComponents st (uuid_of st object) \<noteq> None" by simp
  from checkUpdate_total [OF snap] obtain b where b: "checkUpdate r st object = Inr b" ..
  from Cons.prems have other: "\<forall>x \<in> set array. uuid_of st x \<noteq> uuid_of st object"
    by (auto simp add: image_iff)
  then have fresh: "uuid_of st object \<notin> uuid_of st ` set array" by auto
  show ?case
  proof (cases b)
    case False
    from Cons.prems have p: "\<forall>x \<in> set array. transferComponents st (uuid_of st x) \<noteq> None"
      "distinct (map (uuid_of st) array)" by simp_all
    from Cons.prems(3) b False have run: "sync_array r False array (st, acc) = Inr (st', l)"
      by simp
    from sync_array_scan [OF p, of r acc] run obtain tc where
      tc: "st' = st\<lparr>transferComponents := tc\<rparr>"
        "\<forall>u. u \<notin> uuid_of st ` set array \<longrightarrow> tc u = transferComponents st u"
      by auto
    from tc fresh have head: "transferComponents st' (uuid_of st object)
                                = transferComponents st (uuid_of st object)" by simp
    from Cons.IH [OF p run] head b False show ?thesis by simp
  next
    case True
    from serialize_total [OF snap] obtain c where c:
      "serialize r st object =
          Inr (st\<lparr>transferComponents := (transferComponents st)(uuid_of st object \<mapsto> c)\<rparr>,
               uuid_of st object)" ..
    let ?st1 = "st\<lparr>transferComponents := (transferComponents st)(uuid_of st object \<mapsto> c)\<rparr>"
    from Cons.prems have p:
      "\<forall>x \<in> set array. transferComponents ?st1 (uuid_of ?st1 x) \<noteq> None"
      "distinct (map (uuid_of ?st1) array)" by simp_all
    from Cons.prems(3) b True c have run:
      "sync_array r False array (?st1, acc @ [uuid_of st object]) = Inr (st', l)"
      by simp
    from sync_array_scan [OF p, of r "acc @ [uuid_of st object]"] run obtain tc where
      tc: "st' = ?st1\<lparr>transferComponents := tc\<rparr>"
        "\<forall>u. u \<notin> uuid_of ?st1 ` set array \<longrightarrow> tc u = transferComponents ?st1 u"
      by auto
    have after: "snapshot_after r st object = Some c"
      by (simp add: snapshot_after_def c)
    from tc fresh after have head:
      "transferComponents st' (uuid_of st object) = snapshot_after r st object" by simp
    have tail: "\<forall>x \<in> set array.
        transferComponents st' (uuid_of st x) =
          (if checkUpdate r st x = Inr True then snapshot_after r st x
           else transferComponents st (uuid_of st x))"
    proof
      fix x
      assume x: "x \<in> set array"
      with other have ne: "uuid_of st x \<noteq> uuid_of st object" by simp
      then have same: "((transferComponents st)(uuid_of st object \<mapsto> c)) (uuid_of st x)
                         = transferComponents st (uuid_of st x)" by simp
      from Cons.IH [OF p run] x have
        "transferComponents st' (uuid_of ?st1 x) =
          (if checkUpdate r ?st1 x = Inr True then snapshot_after r ?st1 x
           else transferComponents ?st1 (uuid_of ?st1 x))" by blast
      then show "transferComponents st' (uuid_of st x) =
          (if checkUpdate r st x = Inr True then snapshot_after r st x
           else transferComponents st (uuid_of st x))"
        using same ne
        by (simp add: checkUpdate_same_component snapshot_after_same_component)
    qed
    from head tail b True show ?thesis by simp
  qed
qed

lemma sync_scan_snapshots:
  assumes snaps: "\<forall>object \<in> set (localObjects st @ sharedObjects st).
                    transferComponents st (uuid_of st object) \<noteq> None"
    and dist: "distinct (map (uuid_of st) (localObjects st @ sharedObjects st))"
    and run: "sync_scan r st False False = Inr (st', l)"
  shows "\<forall>object \<in> set (localObjects st @ sharedObjects st).
     transferComponents st' (uuid_of st object) =
       (if checkUpdate r st object = Inr True then snapshot_after r st object
        else transferComponents st (uuid_of st object))"
proof -
  from snaps dist have p1:
    "\<forall>object \<in> set (localObjects st). transferComponents st (uuid_of st object) \<noteq> None"
    "distinct (map (uuid_of st) (localObjects st))" by simp_all
  from sync_array_scan [OF p1, of r "[]"] obtain tc1 l1 where first:
    "sync_array r False (localObjects st) (st, []) = Inr (st\<lparr>transferComponents := tc1\<rparr>, l1)"
    and frame1: "\<forall>u. u \<notin> uuid_of st ` set (localObjects st) \<longrightarrow> tc1 u = transferComponents st u"
    by auto
  let ?st1 = "st\<lparr>transferComponents := tc1\<rparr>"
  have keep: "\<forall>object \<in> set (sharedObjects st).
                tc1 (uuid_of st object) = transferComponents st (uuid_of st object)"
    using frame1 dist by auto
  from snaps keep have p2:
    "\<forall>object \<in> set (sharedObjects st). transferComponents ?st1 (uuid_of ?st1 object) \<noteq> None"
    by simp
  from dist have p3: "distinct (map (uuid_of ?st1) (sharedObjects st))" by simp
  from run first have second:
    "sync_array r False (sharedObjects st) (?st1, l1) = Inr (st', l)"
    by (simp add: sync_scan_def)
  from sync_array_scan [OF p2 p3, of r l1] second obtain tc2 where
    st': "st' = ?st1\<lparr>transferComponents := tc2\<rparr>"
    and frame2: "\<forall>u. u \<notin> uuid_of ?st1 ` set (sharedObjects st) \<longrightarrow> tc2 u = transferComponents ?st1 u"
    by auto
  have locals: "\<forall>object \<in> set (localObjects st).
     transferComponents st' (uuid_of st object) =
       (if checkUpdate r st object = Inr True then snapshot_after r st object
        else transferComponents st (uuid_of st object))"
  proof
    fix object
    assume o: "object \<in> set (localObjects st)"
    with dist have "uuid_of st object \<notin> uuid_of st ` set (sharedObjects st)" by auto
    with frame2 st' have "transferComponents st' (uuid_of st object) = tc1 (uuid_of st object)"
      by simp
    also from sync_array_snapshots [OF p1 first] o have
      "tc1 (uuid_of st object) =
         (if checkUpdate r st object = Inr True then snapshot_after r st object
          else transferComponents st (uuid_of st object))" by simp
    finally show "transferComponents st' (uuid_of st object) =
       (if checkUpdate r st object = Inr True then snapshot_after r st object
        else transferComponents st (uuid_of st object))" .
  qed
  have shareds: "\<forall>object \<in> set (sharedObjects st).
     transferComponents st' (uuid_of st object) =
       (if checkUpdate r st object = Inr True then snapshot_after r st object
        else transferComponents st (uuid_of st object))"
  proof
    fix object
    assume o: "object \<in> set (sharedObjects st)"
    with keep have k: "tc1 (uuid_of st object) = transferComponents st (uuid_of st object)"
      by simp
    from sync_array_snapshots [OF p2 p3 second] o have
      "transferComponents st' (uuid_of ?st1 object) =
         (if checkUpdate r ?st1 object = Inr True then snapshot_after r ?st1 object
          else transferComponents ?st1 (uuid_of ?st1 object))" by blast
    then show "transferComponents st' (uuid_of st object) =
       (if checkUpdate r st object = Inr True then snapshot_after r st object
        else transferComponents st (uuid_of st object))"
      using k by (simp add: checkUpdate_same_component snapshot_after_same_component)
  qed
  from locals shareds show ?thesis by auto
qed

lemma resolve_all:
  "\<forall>k \<in> set ks. transferComponents st k \<noteq> None \<Longrightarrow>
   map Some (resolve st ks) = map (transferComponents st) ks"
  by (induction ks) (auto simp add: resolve_def List.map_filter_simps)

lemma filter_only:
  "distinct xs \<Longrightarrow> x \<in> set xs \<Longrightarrow> P x \<Longrightarrow> \<forall>y \<in> set xs. y \<noteq> x \<longrightarrow> \<not> P y \<Longrightarrow>
   filter P xs = [x]"
proof (induction xs)
  case Nil
  then show ?case by simp
next
  case (Cons a xs)
  show ?case
  proof (cases "a = x")
    case True
    with Cons.prems have "\<forall>y \<in> set xs. \<not> P y" by auto
    then have "filter P xs = []" by (simp add: filter_empty_conv)
    with True Cons.prems show ?thesis by simp
  next
    case False
    with Cons.prems Cons.IH show ?thesis by auto
  qed
qed

lemma sync_scan_force:
  assumes snaps: "\<forall>object \<in> set (localObjects st @ (if onlyLocal then [] else sharedObjects st)).
                    transferComponents st (uuid_of st object) \<noteq> None"
  shows "\<exists>tc. sync_scan r st True onlyLocal =
           Inr (st\<lparr>transferComponents := tc\<rparr>,
                map (uuid_of st) (localObjects st @ (if onlyLocal then [] else sharedObjects st)))
       \<and> dom tc = dom (transferComponents st)"
proof -
  from snaps have p1:
    "\<forall>object \<in> set (localObjects st). transferComponents st (uuid_of st object) \<noteq> None"
    by simp
  from sync_array_force [OF p1, of r "[]"] obtain tc1 where tc1:
    "sync_array r True (localObjects st) (st, []) =
       Inr (st\<lparr>transferComponents := tc1\<rparr>, map (uuid_of st) (localObjects st))"
    "dom tc1 = dom (transferComponents st)" by auto
  show ?thesis
  proof (cases onlyLocal)
    case True
    with tc1 show ?thesis by (intro exI [of _ tc1]) (simp add: sync_scan_def)
  next
    case False
    let ?st1 = "st\<lparr>transferComponents := tc1\<rparr>"
    from snaps False tc1(2) have p2:
      "\<forall>object \<in> set (sharedObjects st). transferComponents ?st1 (uuid_of ?st1 object) \<noteq> None"
      by (auto simp add: dom_def)
    from sync_array_force [OF p2, of r "map (uuid_of st) (localObjects st)"] obtain tc2 where tc2:
      "sync_array r True (sharedObjects st) (?st1, map (uuid_of st) (localObjects st)) =
         Inr (?st1\<lparr>transferComponents := tc2\<rparr>,
              map (uuid_of st) (localObjects st) @ map (uuid_of ?st1) (sharedObjects st))"
      "dom tc2 = dom (transferComponents ?st1)" by auto
    from False tc1 tc2 show ?thesis by (intro exI [of _ tc2]) (simp add: sync_scan_def)
  qed
qed

lemma length_resolve:
  "\<forall>k \<in> set ks. transferComponents st k \<noteq> None \<Longrightarrow> length (resolve st ks) = length ks"
  by (induction ks) (auto simp add: resolve_def List.map_filter_simps)

lemma refill_settles:
  assumes "length array \<le> length live" and "list_all is_number live" and "\<forall>x. r (r x) = r x"
  shows "\<not> differs r (refill r array live) live"
proof -
  have "\<And>i. i < length array \<Longrightarrow>
          strict_eq (ensureFloat32 r (ensureFloat32 r (live ! i))) (ensureFloat32 r (live ! i))"
  proof -
    fix i
    assume "i < length array"
    with assms(1) have "i < length live" by simp
    with assms(2) have "is_number (live ! i)" by (simp add: list_all_length)
    then obtain x where "live ! i = Num x" by (cases "live ! i") simp_all
    with assms(3) show "strict_eq (ensureFloat32 r (ensureFloat32 r (live ! i))) (ensureFloat32 r (live ! i))"
      by simp
  qed
  with assms(1) show ?thesis
    by (auto simp add: differs_def refill_def list_ex_iff js_index_def)
qed

lemma fromArray_sixteen: "length array = 16 \<Longrightarrow> fromArray array = array"
proof (rule nth_equalityI)
  assume "length array = 16"
  then show "length (fromArray array) = length array" by (simp add: fromArray_def)
next
  fix i
  assume "length array = 16" and "i < length (fromArray array)"
  then show "fromArray array ! i = array ! i"
    by (simp add: fromArray_def js_index_def)
qed


lemma deserialize_fields:
  "uuid_of (deserialize st object entry) = uuid_of st"
  "transferComponents (deserialize st object entry) = transferComponents st"
  "localObjects (deserialize st object entry) = localObjects st"
  "sharedObjects (deserialize st object entry) = sharedObjects st"
  "elements (heap (deserialize st object entry) object) = fromArray (t_matrix entry)"
  "morphTargetInfluences (heap (deserialize st object entry) object) =
     (case morphTargetInfluences (heap st object) of
        None \<Rightarrow> None
      | Some array2 \<Rightarrow>
          Some (if length (t_morphTargetInfluences entry) > 0
                then t_morphTargetInfluences entry
                     @ drop (length (t_morphTargetInfluences entry)) array2
                else array2))"
  by (auto simp add: deserialize_def Let_def uuid_of_def fun_eq_iff split: option.splits)

lemma apply_then_check:
  assumes snap: "transferComponents st (uuid_of st object) = Some c"
    and m: "length (t_matrix c) \<le> 16"
    and em: "length (t_matrix entry) = 16" "list_all is_number (t_matrix entry)"
    and ew: "list_all is_number (t_morphTargetInfluences entry)"
    and own: "case morphTargetInfluences (heap st object) of
                None \<Rightarrow> True
              | Some ws \<Rightarrow> length (t_morphTargetInfluences c) \<le> length ws \<and> list_all is_number ws"
    and idem: "\<forall>x. r (r x) = r x"
  shows "\<exists>c2. serialize r (deserialize st object entry) object =
                Inr ((deserialize st object entry)
                       \<lparr>transferComponents := (transferComponents st)(uuid_of st object \<mapsto> c2)\<rparr>,
                     uuid_of st object)
             \<and> checkUpdate r
                 ((deserialize st object entry)
                    \<lparr>transferComponents := (transferComponents st)(uuid_of st object \<mapsto> c2)\<rparr>)
                 object = Inr False"
proof -
  let ?st1 = "deserialize st object entry"
  let ?live = "elements (heap ?st1 object)"
  have live: "?live = t_matrix entry"
    using em(1) by (simp add: deserialize_fields fromArray_sixteen)
  have settled: "\<not> differs r (refill r (t_matrix c) ?live) ?live"
    using m em idem unfolding live by (intro refill_settles) simp_all
  show ?thesis
  proof (cases "morphTargetInfluences (heap st object)")
    case None
    then have none: "morphTargetInfluences (heap ?st1 object) = None"
      by (simp add: deserialize_fields)
    let ?c2 = "c\<lparr>t_matrix := refill r (t_matrix c) ?live\<rparr>"
    have ser: "serialize r ?st1 object =
                Inr (?st1\<lparr>transferComponents := (transferComponents st)(uuid_of st object \<mapsto> ?c2)\<rparr>,
                     uuid_of st object)"
      using snap none by (simp add: serialize_def deserialize_fields Let_def)
    have chk: "checkUpdate r
                 (?st1\<lparr>transferComponents := (transferComponents st)(uuid_of st object \<mapsto> ?c2)\<rparr>)
                 object = Inr False"
      using settled none by (simp add: checkUpdate_def deserialize_fields)
    from ser chk show ?thesis by blast
  next
    case (Some ws)
    let ?ws' = "if length (t_morphTargetInfluences entry) > 0
                then t_morphTargetInfluences entry @ drop (length (t_morphTargetInfluences entry)) ws
                else ws"
    have some: "morphTargetInfluences (heap ?st1 object) = Some ?ws'"
      using Some by (simp add: deserialize_fields)
    from own Some have w: "length (t_morphTargetInfluences c) \<le> length ws" "list_all is_number ws"
      by simp_all
    have len: "length (t_morphTargetInfluences c) \<le> length ?ws'"
      using w(1) by auto
    have nums: "list_all is_number ?ws'"
      using w(2) ew by (auto simp add: list_all_iff dest: in_set_dropD)
    have settled2: "\<not> differs r (refill r (t_morphTargetInfluences c) ?ws') ?ws'"
      using len nums idem by (rule refill_settles)
    let ?c2 = "c\<lparr>t_matrix := refill r (t_matrix c) ?live,
                  t_morphTargetInfluences := refill r (t_morphTargetInfluences c) ?ws'\<rparr>"
    have ser: "serialize r ?st1 object =
                Inr (?st1\<lparr>transferComponents := (transferComponents st)(uuid_of st object \<mapsto> ?c2)\<rparr>,
                     uuid_of st object)"
      using snap some by (simp add: serialize_def deserialize_fields(1,2) Let_def)
    have chk: "checkUpdate r
                 (?st1\<lparr>transferComponents := (transferComponents st)(uuid_of st object \<mapsto> ?c2)\<rparr>)
                 object = Inr False"
      using settled settled2 some by (simp add: checkUpdate_def deserialize_fields(1,2))
    from ser chk show ?thesis by blast
  qed
qed

lemma round4_idem: "round4 (round4 x) = round4 x"
  by (simp add: round4_def)

text \<open>What the two broken functions do in general.\<close>

lemma removeLocalObject_sequence:
  "localObjectTable st (uuid_of st object) \<noteq> None \<Longrightarrow>
   localObjects (removeLocalObject st object) = filter (\<lambda>x. x = object) (localObjects st)"
  by (auto simp add: removeLocalObject_def Let_def broadcastRemoveObjectRequest_def
        client_broadcast_def removeObjectFromArray_filter)

lemma handleRemoveRequest_ReferenceError:
  "remoteObjectTable st (c_id component) = Some objects \<Longrightarrow> c_list component \<noteq> [] \<Longrightarrow>
   handleRemoveRequest env st component = Inl ReferenceError"
  by (cases "c_list component") (simp_all add: handleRemoveRequest_def js_get_def)

text \<open>The definitions that evaluating a concrete input unfolds.\<close>

lemmas example_defs =
  RemoteSync_new_def objects0_def matrix0_def uuid_of_def createTransferComponent_def
  addLocalObject_def addRemoteObject_def addSharedObject_def
  broadcastAddObjectRequest_def broadcastRemoveObjectRequest_def
  buildObjectAdditionComponent_def buildObjectRemovalComponent_def
  client_broadcast_def client_send_def

lemmas eval_defs = example_defs two_locals_def all_registered_def after_motion_def
  round4_def Let_def map_by_index

lemmas run_defs = on_connect_def sync_def sync_scan_def serialize_def checkUpdate_def
  differs_def refill_def js_index_def resolve_def List.map_filter_simps
  invokeConnectListeners_def sendAddObjectsRequest_def buildObjectsAdditionComponent_def
  sync_ids_sent_def

lemmas apply_defs = handleSyncRequest_def js_get_def ecmascript_def deserialize_def
  fromArray_def then_sync_def
  sync_scan_def serialize_def checkUpdate_def differs_def refill_def js_index_def

lemma all_registered_ok: "registry_ok all_registered"
  by (simp add: eval_defs registry_ok_def snapshot_fits_def)

section \<open>The claims\<close>

text \<open>
  C1, as amended. For every newly established connection to peer \<open>P\<close> the engine calls the
  \<open>connect\<close> listeners, unicasts to \<open>P\<close> one ADD message listing every entity of the local
  sequence with its info, and then runs a forced \<open>sync\<close> whose scope is the local entities
  only when this side is the initiator (\<open>fromRemote\<close> false), and the local plus the shared
  entities when this side is the non-initiator (\<open>fromRemote\<close> true). The SYNC message holds
  one record, the Snapshot, for each entity in scope, in order, and it is broadcast only
  when the scope is not empty. The hypothesis is that the entities in scope have
  Snapshots.
\<close>

theorem on_connect_catalog:
  assumes "list_all (has_snapshot st) (connect_scope st fromRemote)"
  shows "\<exists>st'. on_connect r st P fromRemote = Inr st'
     \<and> calls st' = calls st @ map (\<lambda>l. (l, Connect P)) (onConnects st)
     \<and> sent st' =
         sent st
         @ [Send P (AddPacket
              \<lparr>c_id = self_id st, c_did = Some P, c_type = TRANSFER_TYPE_ADD,
               c_list = map (\<lambda>object. (uuid_of st object, localObjectInfos st (uuid_of st object)))
                          (localObjects st)\<rparr>)]
         @ (if connect_scope st fromRemote = [] then []
            else [Broadcast (SyncPacket
                    \<lparr>c_id = self_id st, c_did = None, c_type = TRANSFER_TYPE_SYNC,
                     c_list = resolve st' (map (uuid_of st) (connect_scope st fromRemote))\<rparr>)])
     \<and> length (resolve st' (map (uuid_of st) (connect_scope st fromRemote)))
         = length (connect_scope st fromRemote)"
proof -
  let ?st2 = "sendAddObjectsRequest (invokeConnectListeners st P) P"
  have fields: "localObjects ?st2 = localObjects st" "sharedObjects ?st2 = sharedObjects st"
    "transferComponents ?st2 = transferComponents st" "uuid_of ?st2 = uuid_of st"
    "self_id ?st2 = self_id st"
    "calls ?st2 = calls st @ map (\<lambda>l. (l, Connect P)) (onConnects st)"
    by (simp_all add: sendAddObjectsRequest_def invokeConnectListeners_def client_send_def
          Let_def uuid_of_def fun_eq_iff)
  have add: "sent ?st2 = sent st
         @ [Send P (AddPacket
              \<lparr>c_id = self_id st, c_did = Some P, c_type = TRANSFER_TYPE_ADD,
               c_list = map (\<lambda>object. (uuid_of st object, localObjectInfos st (uuid_of st object)))
                          (localObjects st)\<rparr>)]"
    by (simp add: sendAddObjectsRequest_def invokeConnectListeners_def client_send_def
          Let_def uuid_of_def buildObjectsAdditionComponent_def comp_def)
  have scope: "localObjects ?st2 @ (if \<not> fromRemote then [] else sharedObjects ?st2)
                 = connect_scope st fromRemote"
    by (simp add: connect_scope_def fields)
  from assms have snaps:
    "\<forall>object \<in> set (localObjects ?st2 @ (if \<not> fromRemote then [] else sharedObjects ?st2)).
       transferComponents ?st2 (uuid_of ?st2 object) \<noteq> None"
    unfolding scope by (simp add: list_all_iff has_snapshot_def fields)
  from sync_scan_force [OF snaps, of r] obtain tc where tc:
    "sync_scan r ?st2 True (\<not> fromRemote) =
           Inr (?st2\<lparr>transferComponents := tc\<rparr>, map (uuid_of st) (connect_scope st fromRemote))"
    "dom tc = dom (transferComponents st)"
    unfolding scope by (auto simp add: fields)
  let ?st3 = "?st2\<lparr>transferComponents := tc\<rparr>"
  let ?keys = "map (uuid_of st) (connect_scope st fromRemote)"
  let ?st' = "if ?keys = [] then ?st3
              else client_broadcast ?st3
                     (SyncPacket \<lparr>c_id = self_id st, c_did = None, c_type = TRANSFER_TYPE_SYNC,
                                  c_list = resolve ?st3 ?keys\<rparr>)"
  have run: "on_connect r st P fromRemote = Inr ?st'"
    using tc(1) by (simp add: on_connect_def Let_def sync_def fields)
  have res: "resolve ?st' ?keys = resolve ?st3 ?keys"
    by (simp add: resolve_def client_broadcast_def)
  have "\<forall>k \<in> set ?keys. transferComponents ?st3 k \<noteq> None"
    using assms tc(2) by (auto simp add: list_all_iff has_snapshot_def dom_def)
  then have len: "length (resolve ?st3 ?keys) = length (connect_scope st fromRemote)"
    by (simp add: length_resolve)
  have c: "calls ?st' = calls st @ map (\<lambda>l. (l, Connect P)) (onConnects st)"
    by (simp add: fields client_broadcast_def)
  have s: "sent ?st' = sent st
         @ [Send P (AddPacket
              \<lparr>c_id = self_id st, c_did = Some P, c_type = TRANSFER_TYPE_ADD,
               c_list = map (\<lambda>object. (uuid_of st object, localObjectInfos st (uuid_of st object)))
                          (localObjects st)\<rparr>)]
         @ (if connect_scope st fromRemote = [] then []
            else [Broadcast (SyncPacket
                    \<lparr>c_id = self_id st, c_did = None, c_type = TRANSFER_TYPE_SYNC,
                     c_list = resolve ?st' ?keys\<rparr>)])"
    unfolding res by (simp add: add client_broadcast_def)
  have len': "length (resolve ?st' ?keys) = length (connect_scope st fromRemote)"
    using len res by simp
  show ?thesis
    by (rule exI [of _ ?st'], intro conjI) (fact run c s len')+
qed

theorem on_connect_catalog_witness:
  "list_all (has_snapshot all_registered) (connect_scope all_registered True)
   \<and> (\<exists>st'. on_connect round4 all_registered ''p'' True = Inr st'
         \<and> length (resolve st' [''a'', ''b'', ''c'']) = 3)"
proof -
  have h: "list_all (has_snapshot all_registered) (connect_scope all_registered True)"
    by (simp add: eval_defs has_snapshot_def connect_scope_def)
  have k: "map (uuid_of all_registered) (connect_scope all_registered True) = [''a'', ''b'', ''c'']"
    and n: "length (connect_scope all_registered True) = 3"
    by (simp_all add: eval_defs connect_scope_def)
  from on_connect_catalog [OF h, of round4 "''p''"] h show ?thesis
    unfolding k n by blast
qed

text \<open>
  C1 as stated has the two scopes the other way round. With objects \<open>a\<close> and \<open>b\<close> local and
  \<open>c\<close> shared, the side that did not initiate the connection (\<open>fromRemote\<close> true)
  broadcasts \<open>a\<close>, \<open>b\<close> and the shared \<open>c\<close>, and the initiator broadcasts \<open>a\<close> and \<open>b\<close> only.
\<close>

theorem on_connect_scope_counterexample:
  "sync_ids_sent (on_connect round4 all_registered ''p'' True) = [[''a'', ''b'', ''c'']]
   \<and> sync_ids_sent (on_connect round4 all_registered ''p'' False) = [[''a'', ''b'']]"
  by (simp add: eval_defs run_defs)

text \<open>
  C2. An incoming REMOVE message from a peer should delete each listed entity that is in
  the peer's remote registry, call the \<open>remove\<close> listeners, and complete without throwing.
  The code does not: with peer \<open>p\<close> mirroring \<open>x\<close> and \<open>y\<close>, the message \<open>REMOVE [x]\<close>
  from \<open>p\<close> ends in a ReferenceError, at the read of the undeclared \<open>objests\<close>; nothing is
  deleted and no listener is called.
\<close>

theorem handleRemoveRequest_throws:
  "handleRemoveRequest ecmascript two_mirrors
     \<lparr>c_id = ''p'', c_did = None, c_type = TRANSFER_TYPE_REMOVE, c_list = [''x'']\<rparr>
   = Inl ReferenceError"
  by (simp add: handleRemoveRequest_def js_get_def two_mirrors_def example_defs)

text \<open>
  C3. \<open>removeLocalObject(o)\<close> should leave the local objects, table and sequence alike,
  as they were minus \<open>o\<close>. With objects 1 and 2 registered, removing 2 deletes 2 from the
  table, from the infos and from the transfer components and broadcasts the REMOVE, but
  the sequence becomes \<open>[2]\<close>: object 1 is dropped from it and object 2 is kept.
\<close>

theorem removeLocalObject_keeps_removed:
  "localObjects two_locals = [1, 2]
   \<and> localObjects (removeLocalObject two_locals 2) = [2]
   \<and> localObjectTable (removeLocalObject two_locals 2) ''a'' = Some 1
   \<and> localObjectTable (removeLocalObject two_locals 2) ''b'' = None
   \<and> transferComponents (removeLocalObject two_locals 2) ''b'' = None"
  by (simp add: removeLocalObject_def two_locals_def example_defs Let_def
        removeObjectFromArray_filter)

text \<open>
  C4. A disconnect of peer \<open>P\<close> calls the \<open>disconnect\<close> listeners and then gives exactly
  one \<open>remove\<close> notification for each entity mirrored under \<open>P\<close> (each \<open>remove\<close> listener
  is called once for it, with the peer, the entity id and the mirror), after which \<open>P\<close>
  has no remote table at all; the tables of other peers are untouched. The keys of a
  JavaScript object are distinct, which is the hypothesis.
\<close>

theorem on_disconnect_cleans:
  assumes "distinct (map fst (mirrors st P))"
  shows "remoteObjectTable (on_disconnect st P) P = None
       \<and> calls (on_disconnect st P) =
           calls st @ map (\<lambda>l. (l, Disconnect P)) (onDisconnects st) @ remove_calls st P (mirrors st P)
       \<and> (\<forall>(k, m) \<in> set (mirrors st P).
            filter (\<lambda>c. snd c = Remove P k m) (remove_calls st P (mirrors st P))
              = map (\<lambda>l. (l, Remove P k m)) (onRemoves st))
       \<and> (\<forall>Q. Q \<noteq> P \<longrightarrow> remoteObjectTable (on_disconnect st P) Q = remoteObjectTable st Q)"
proof (cases "remoteObjectTable st P")
  case None
  then show ?thesis
    by (simp add: on_disconnect_def invokeDisconnectListeners_def mirrors_def remove_calls_def)
next
  case (Some os)
  let ?s1 = "invokeDisconnectListeners st P"
  have tab: "remoteObjectTable ?s1 P = Some os"
    using Some by (simp add: invokeDisconnectListeners_def)
  from assms Some have dist: "distinct (map fst os)" by (simp add: mirrors_def)
  have run: "on_disconnect st P =
       (fold (\<lambda>k s. removeRemoteObject s P k) (map fst os) ?s1)
         \<lparr>remoteObjectTable :=
            (remoteObjectTable (fold (\<lambda>k s. removeRemoteObject s P k) (map fst os) ?s1))(P := None)\<rparr>"
    using tab by (simp add: on_disconnect_def Let_def)
  have m: "mirrors st P = os" using Some by (simp add: mirrors_def)
  have rc: "remove_calls ?s1 P os = remove_calls st P os"
    by (simp add: remove_calls_def invokeDisconnectListeners_def)
  have c1: "calls ?s1 = calls st @ map (\<lambda>l. (l, Disconnect P)) (onDisconnects st)"
    by (simp add: invokeDisconnectListeners_def)
  have r1: "remoteObjectTable ?s1 = remoteObjectTable st"
    by (simp add: invokeDisconnectListeners_def)
  have "\<forall>(k, m) \<in> set os.
            filter (\<lambda>c. snd c = Remove P k m) (remove_calls st P os)
              = map (\<lambda>l. (l, Remove P k m)) (onRemoves st)"
    using remove_calls_count [OF dist] by auto
  then show ?thesis
    by (simp add: run fold_removeRemoteObject [OF tab dist] m rc c1 r1)
qed

theorem on_disconnect_cleans_witness:
  "distinct (map fst (mirrors two_mirrors ''p''))
   \<and> remoteObjectTable (on_disconnect two_mirrors ''p'') ''p'' = None
   \<and> calls (on_disconnect two_mirrors ''p'') =
       [(8, Disconnect ''p''), (7, Remove ''p'' ''x'' 1), (7, Remove ''p'' ''y'' 3)]"
proof -
  have m: "mirrors two_mirrors ''p'' = [(''x'', 1), (''y'', 3)]"
    by (simp add: mirrors_def two_mirrors_def example_defs)
  have d: "distinct (map fst (mirrors two_mirrors ''p''))"
    by (simp add: m)
  have l: "onRemoves two_mirrors = [7] \<and> onDisconnects two_mirrors = [8]
           \<and> calls two_mirrors = []"
    by (simp add: two_mirrors_def example_defs)
  from on_disconnect_cleans [OF d] d show ?thesis
    by (simp add: m l remove_calls_def)
qed

text \<open>
  C5, as amended. Under the data model's invariants, \<open>sync(false)\<close> returns normally and its
  record list holds, local entities first and then shared ones, exactly the entities that
  have a channel changed at 32-bit float precision since the Snapshot was written or a
  channel that is not a number (NaN). So an entity whose channels are all unchanged and
  none of them NaN gets no record; when exactly one entity has a changed channel and the
  others hold no NaN, the list is that entity alone; the message carries for each listed
  entity its record with the entity's current channels; and the message is broadcast if
  and only if the list is not empty, nothing being sent otherwise.
\<close>

theorem sync_sends_exactly_the_changed:
  assumes "registry_ok st"
  shows "\<exists>st' list.
           sync_scan r st False False = Inr (st', list)
         \<and> list = map (uuid_of st)
                    (filter (\<lambda>object. \<not> (unchanged r st object \<and> numeric (heap st object)))
                       (localObjects st @ sharedObjects st))
         \<and> (\<forall>object \<in> set (localObjects st @ sharedObjects st).
              unchanged r st object \<and> numeric (heap st object)
              \<longrightarrow> uuid_of st object \<notin> set list)
         \<and> (\<forall>object \<in> set (localObjects st @ sharedObjects st).
              \<not> unchanged r st object
              \<and> (\<forall>other \<in> set (localObjects st @ sharedObjects st).
                    other \<noteq> object \<longrightarrow> unchanged r st other \<and> numeric (heap st other))
              \<longrightarrow> list = [uuid_of st object])
         \<and> map Some (resolve st' list) =
             map (record_for r st)
               (filter (\<lambda>object. \<not> (unchanged r st object \<and> numeric (heap st object)))
                  (localObjects st @ sharedObjects st))
         \<and> sent st' = sent st
         \<and> sync r st False False =
             Inr (if list = [] then st'
                  else client_broadcast st'
                         (SyncPacket \<lparr>c_id = self_id st, c_did = None,
                                      c_type = TRANSFER_TYPE_SYNC, c_list = resolve st' list\<rparr>))"
proof -
  let ?scope = "localObjects st @ sharedObjects st"
  let ?sent = "\<lambda>object. \<not> (unchanged r st object \<and> numeric (heap st object))"
  from assms have fits: "\<forall>object \<in> set ?scope. snapshot_fits st object"
    and dist: "distinct (map (uuid_of st) ?scope)"
    by (simp_all add: registry_ok_def list_all_iff)
  from fits have snaps: "\<forall>object \<in> set ?scope. transferComponents st (uuid_of st object) \<noteq> None"
    by (auto simp add: snapshot_fits_def split: option.splits)
  from sync_scan_delta [OF snaps dist, of r] obtain tc where tc:
    "sync_scan r st False False =
           Inr (st\<lparr>transferComponents := tc\<rparr>,
                map (uuid_of st) (filter (\<lambda>object. checkUpdate r st object = Inr True) ?scope))"
    by blast
  have f: "filter (\<lambda>object. checkUpdate r st object = Inr True) ?scope = filter ?sent ?scope"
    using fits by (intro filter_cong) (simp_all add: checkUpdate_unchanged)
  let ?list = "map (uuid_of st) (filter ?sent ?scope)"
  let ?st' = "st\<lparr>transferComponents := tc\<rparr>"
  have scan: "sync_scan r st False False = Inr (?st', ?list)"
    using tc unfolding f .
  have inj: "inj_on (uuid_of st) (set ?scope)"
    using dist unfolding distinct_map by blast
  have dscope: "distinct ?scope"
    using dist unfolding distinct_map by blast
  have a: "\<forall>object \<in> set ?scope.
             unchanged r st object \<and> numeric (heap st object) \<longrightarrow> uuid_of st object \<notin> set ?list"
  proof (intro ballI impI notI)
    fix object
    assume o: "object \<in> set ?scope"
      and u: "unchanged r st object \<and> numeric (heap st object)"
      and m: "uuid_of st object \<in> set ?list"
    from m obtain x where x: "x \<in> set (filter ?sent ?scope)"
      and e: "uuid_of st object = uuid_of st x"
      unfolding set_map by (rule imageE)
    from x have xs: "x \<in> set ?scope" and xc: "?sent x" by auto
    from inj e [symmetric] xs o have "x = object" by (rule inj_onD)
    with xc u show False by simp
  qed
  have b: "\<forall>object \<in> set ?scope.
              \<not> unchanged r st object
              \<and> (\<forall>other \<in> set ?scope.
                    other \<noteq> object \<longrightarrow> unchanged r st other \<and> numeric (heap st other))
              \<longrightarrow> ?list = [uuid_of st object]"
  proof (intro ballI impI)
    fix object
    assume o: "object \<in> set ?scope"
      and c: "\<not> unchanged r st object
              \<and> (\<forall>other \<in> set ?scope.
                    other \<noteq> object \<longrightarrow> unchanged r st other \<and> numeric (heap st other))"
    have "filter ?sent ?scope = [object]"
      using dscope o c by (intro filter_only) auto
    then show "?list = [uuid_of st object]" by simp
  qed
  have snapshots: "\<forall>object \<in> set (filter ?sent ?scope).
                     transferComponents ?st' (uuid_of st object) = record_for r st object"
  proof
    fix object
    assume "object \<in> set (filter ?sent ?scope)"
    then have o: "object \<in> set ?scope" and c: "?sent object" by auto
    from o fits have fit: "snapshot_fits st object" by blast
    with c have chk: "checkUpdate r st object = Inr True"
      by (simp add: checkUpdate_unchanged)
    from sync_scan_snapshots [OF snaps dist scan] o chk
    have "transferComponents ?st' (uuid_of st object) = snapshot_after r st object"
      by simp
    with fit show "transferComponents ?st' (uuid_of st object) = record_for r st object"
      by (simp add: snapshot_after_fits)
  qed
  have present: "\<forall>k \<in> set ?list. transferComponents ?st' k \<noteq> None"
  proof
    fix k
    assume "k \<in> set ?list"
    then obtain object where o: "object \<in> set (filter ?sent ?scope)"
      and k: "k = uuid_of st object"
      unfolding set_map by (rule imageE)
    from o have "object \<in> set ?scope" by auto
    with snaps have "record_for r st object \<noteq> None"
      by (auto simp add: record_for_def split: option.splits)
    with snapshots o k show "transferComponents ?st' k \<noteq> None" by simp
  qed
  have "map Some (resolve ?st' ?list) = map (transferComponents ?st') ?list"
    using present by (rule resolve_all)
  also have "\<dots> = map (\<lambda>object. transferComponents ?st' (uuid_of st object)) (filter ?sent ?scope)"
    by (simp add: comp_def)
  also have "\<dots> = map (record_for r st) (filter ?sent ?scope)"
    using snapshots by (intro map_cong) simp_all
  finally have recs: "map Some (resolve ?st' ?list) = map (record_for r st) (filter ?sent ?scope)" .
  have s: "sync r st False False =
             Inr (if ?list = [] then ?st'
                  else client_broadcast ?st'
                         (SyncPacket \<lparr>c_id = self_id st, c_did = None,
                                      c_type = TRANSFER_TYPE_SYNC, c_list = resolve ?st' ?list\<rparr>))"
    by (simp add: sync_def scan)
  have t: "sent ?st' = sent st" by simp
  show ?thesis
    by (rule exI [of _ ?st'], rule exI [of _ ?list], intro conjI) (fact scan refl a b recs t s)+
qed

theorem sync_sends_exactly_the_changed_witness:
  "registry_ok after_motion
   \<and> (\<exists>st'. sync_scan round4 after_motion False False = Inr (st', [''b''])
         \<and> resolve st' [''b''] =
             [\<lparr>t_id = ''b'', t_sid = None, t_matrix = matrix0,
               t_morphTargetInfluences = [Num 12]\<rparr>]
         \<and> sync round4 after_motion False False =
             Inr (client_broadcast st'
                    (SyncPacket
                       \<lparr>c_id = ''me'', c_did = None, c_type = TRANSFER_TYPE_SYNC,
                        c_list = [\<lparr>t_id = ''b'', t_sid = None, t_matrix = matrix0,
                                   t_morphTargetInfluences = [Num 12]\<rparr>]\<rparr>)))"
proof -
  have ok: "registry_ok after_motion"
    by (simp add: eval_defs registry_ok_def snapshot_fits_def)
  have l: "filter (\<lambda>object. \<not> (unchanged round4 after_motion object
                                  \<and> numeric (heap after_motion object)))
             (localObjects after_motion @ sharedObjects after_motion) = [2]"
    by (simp add: eval_defs unchanged_def same_at_float32_def numeric_def)
  have u: "uuid_of after_motion 2 = ''b''" and i: "self_id after_motion = ''me''"
    by (simp_all add: eval_defs)
  have rec: "record_for round4 after_motion 2 =
               Some \<lparr>t_id = ''b'', t_sid = None, t_matrix = matrix0,
                     t_morphTargetInfluences = [Num 12]\<rparr>"
    by (simp add: eval_defs record_for_def)
  from sync_sends_exactly_the_changed [OF ok, of round4] obtain st' list where
    scan: "sync_scan round4 after_motion False False = Inr (st', list)"
    and list: "list = map (uuid_of after_motion)
                        (filter (\<lambda>object. \<not> (unchanged round4 after_motion object
                                             \<and> numeric (heap after_motion object)))
                           (localObjects after_motion @ sharedObjects after_motion))"
    and recs: "map Some (resolve st' list) =
                 map (record_for round4 after_motion)
                   (filter (\<lambda>object. \<not> (unchanged round4 after_motion object
                                         \<and> numeric (heap after_motion object)))
                      (localObjects after_motion @ sharedObjects after_motion))"
    and run: "sync round4 after_motion False False =
                Inr (if list = [] then st'
                     else client_broadcast st'
                            (SyncPacket \<lparr>c_id = self_id after_motion, c_did = None,
                                         c_type = TRANSFER_TYPE_SYNC,
                                         c_list = resolve st' list\<rparr>))"
    by blast
  from list have list': "list = [''b'']" unfolding l by (simp add: u)
  from recs have "map Some (resolve st' list) =
                    map Some [\<lparr>t_id = ''b'', t_sid = None, t_matrix = matrix0,
                               t_morphTargetInfluences = [Num 12]\<rparr>]"
    unfolding l by (simp add: rec)
  then have res: "resolve st' list = [\<lparr>t_id = ''b'', t_sid = None, t_matrix = matrix0,
                                         t_morphTargetInfluences = [Num 12]\<rparr>]"
    by (simp only: inj_map_eq_map [OF inj_Some])
  from ok scan res run show ?thesis
    unfolding list' i by (intro conjI exI [of _ st']) simp_all
qed

text \<open>
  C5 as stated covers every entity whose channels did not change. An object whose first
  transform channel is NaN is registered and never touched: every channel is what it was
  when the Snapshot was written, yet \<open>sync(false)\<close> emits the entity, NaN being different
  from itself for \<open>checkUpdate\<close>.
\<close>

theorem untouched_nan_is_sent:
  "registry_ok nan_local
   \<and> unchanged round4 nan_local 4
   \<and> then_sync round4 (Inr nan_local) = Inr [''n'']"
  by (simp add: nan_local_def eval_defs registry_ok_def snapshot_fits_def unchanged_def
        same_at_float32_def then_sync_def sync_scan_def checkUpdate_def serialize_def
        differs_def refill_def js_index_def)

text \<open>
  C6, as amended. Take a shared entity registered under the shared id \<open>S\<close>, in a state that
  meets the data model's invariants, and an incoming SYNC message with one record addressed
  to \<open>S\<close> that has sixteen transform channels, all channels of the record and the blend
  weights of the entity being numbers other than NaN. Then the handler returns normally,
  the entity's transform is the record's, and the \<open>sync(false)\<close> called right after it has
  no record for that entity. (\<open>ensureFloat32\<close> rounds a value it produced to itself.)
\<close>

theorem applied_shared_record_is_not_echoed:
  assumes ok: "registry_ok st"
    and bound: "sharedObjectTable st S = Some object"
    and reg: "object \<in> set (sharedObjects st)"
    and msg: "c_list message = [entry]"
    and sid: "t_sid entry = Some S"
    and em: "length (t_matrix entry) = 16" "list_all is_number (t_matrix entry)"
    and ew: "list_all is_number (t_morphTargetInfluences entry)"
    and m16: "length (elements (heap st object)) = 16"
    and own: "case morphTargetInfluences (heap st object) of
                None \<Rightarrow> True
              | Some ws \<Rightarrow> list_all is_number ws"
    and idem: "\<forall>x. r (r x) = r x"
  shows "\<exists>st1 list. handleSyncRequest env r st message = Inr st1
           \<and> elements (heap st1 object) = t_matrix entry
           \<and> then_sync r (handleSyncRequest env r st message) = Inr list
           \<and> uuid_of st object \<notin> set list"
proof -
  let ?scope = "localObjects st @ sharedObjects st"
  from ok have fits: "\<forall>x \<in> set ?scope. snapshot_fits st x"
    and dist: "distinct (map (uuid_of st) ?scope)"
    by (simp_all add: registry_ok_def list_all_iff)
  from fits have snaps: "\<forall>x \<in> set ?scope. transferComponents st (uuid_of st x) \<noteq> None"
    by (auto simp add: snapshot_fits_def split: option.splits)
  from reg have inscope: "object \<in> set ?scope" by simp
  with fits have "snapshot_fits st object" by blast
  then obtain c where c: "transferComponents st (uuid_of st object) = Some c"
    and cm: "length (t_matrix c) = length (elements (heap st object))"
    and cw: "case morphTargetInfluences (heap st object) of
               None \<Rightarrow> True
             | Some ws \<Rightarrow> length (t_morphTargetInfluences c) = length ws"
    by (auto simp add: snapshot_fits_def split: option.splits)
  from cm m16 have m: "length (t_matrix c) \<le> 16" by simp
  from cw own have own': "case morphTargetInfluences (heap st object) of
                None \<Rightarrow> True
              | Some ws \<Rightarrow> length (t_morphTargetInfluences c) \<le> length ws \<and> list_all is_number ws"
    by (auto split: option.splits)
  let ?st1 = "deserialize st object entry"
  from apply_then_check [OF c m em ew own' idem] obtain c2 where
    ser: "serialize r ?st1 object =
            Inr (?st1\<lparr>transferComponents := (transferComponents st)(uuid_of st object \<mapsto> c2)\<rparr>,
                 uuid_of st object)"
    and chk: "checkUpdate r
                (?st1\<lparr>transferComponents := (transferComponents st)(uuid_of st object \<mapsto> c2)\<rparr>)
                object = Inr False"
    by blast
  let ?st2 = "?st1\<lparr>transferComponents := (transferComponents st)(uuid_of st object \<mapsto> c2)\<rparr>"
  have run: "handleSyncRequest env r st message = Inr ?st2"
    using msg sid bound ser by (simp add: handleSyncRequest_def js_get_def)
  have applied: "elements (heap ?st2 object) = t_matrix entry"
    using em(1) by (simp add: deserialize_fields fromArray_sixteen)
  have u2: "uuid_of ?st2 = uuid_of st"
    by (simp add: deserialize_fields)
  have l2: "localObjects ?st2 @ sharedObjects ?st2 = ?scope"
    by (simp add: deserialize_fields)
  have snaps2: "\<forall>x \<in> set (localObjects ?st2 @ sharedObjects ?st2).
                  transferComponents ?st2 (uuid_of ?st2 x) \<noteq> None"
    unfolding l2 u2 using snaps by simp
  have dist2: "distinct (map (uuid_of ?st2) (localObjects ?st2 @ sharedObjects ?st2))"
    unfolding l2 u2 using dist .
  from sync_scan_delta [OF snaps2 dist2, of r] obtain tc where scan:
    "sync_scan r ?st2 False False =
       Inr (?st2\<lparr>transferComponents := tc\<rparr>,
            map (uuid_of st) (filter (\<lambda>x. checkUpdate r ?st2 x = Inr True) ?scope))"
    unfolding l2 u2 by blast
  let ?list = "map (uuid_of st) (filter (\<lambda>x. checkUpdate r ?st2 x = Inr True) ?scope)"
  have ts: "then_sync r (handleSyncRequest env r st message) = Inr ?list"
    unfolding run by (simp add: then_sync_def scan)
  have inj: "inj_on (uuid_of st) (set ?scope)"
    using dist unfolding distinct_map by blast
  have absent: "uuid_of st object \<notin> set ?list"
  proof
    assume "uuid_of st object \<in> set ?list"
    then obtain x where x: "x \<in> set (filter (\<lambda>x. checkUpdate r ?st2 x = Inr True) ?scope)"
      and e: "uuid_of st object = uuid_of st x"
      unfolding set_map by (rule imageE)
    from x have xs: "x \<in> set ?scope" and xc: "checkUpdate r ?st2 x = Inr True" by auto
    from inj e [symmetric] xs inscope have "x = object" by (rule inj_onD)
    with xc chk show False by simp
  qed
  show ?thesis
    by (rule exI [of _ ?st2], rule exI [of _ ?list], intro conjI) (fact run applied ts absent)+
qed

theorem applied_shared_record_is_not_echoed_witness:
  "registry_ok all_registered
   \<and> sharedObjectTable all_registered ''s'' = Some 3
   \<and> 3 \<in> set (sharedObjects all_registered)
   \<and> t_sid moved_record = Some ''s''
   \<and> length (t_matrix moved_record) = 16
   \<and> list_all is_number (t_matrix moved_record)
   \<and> (\<forall>x. round4 (round4 x) = round4 x)
   \<and> (\<exists>st1 list.
         handleSyncRequest ecmascript round4 all_registered
           \<lparr>c_id = ''p'', c_did = None, c_type = TRANSFER_TYPE_SYNC, c_list = [moved_record]\<rparr>
           = Inr st1
         \<and> elements (heap st1 3) = t_matrix moved_record
         \<and> then_sync round4
             (handleSyncRequest ecmascript round4 all_registered
                \<lparr>c_id = ''p'', c_did = None, c_type = TRANSFER_TYPE_SYNC, c_list = [moved_record]\<rparr>)
             = Inr list
         \<and> ''c'' \<notin> set list)"
proof -
  have bound: "sharedObjectTable all_registered ''s'' = Some 3"
    and reg: "3 \<in> set (sharedObjects all_registered)"
    and m16: "length (elements (heap all_registered 3)) = 16"
    and own: "case morphTargetInfluences (heap all_registered 3) of
                None \<Rightarrow> True | Some ws \<Rightarrow> list_all is_number ws"
    and u: "uuid_of all_registered 3 = ''c''"
    by (simp_all add: eval_defs)
  have msg: "c_list \<lparr>c_id = ''p'', c_did = None, c_type = TRANSFER_TYPE_SYNC,
                     c_list = [moved_record]\<rparr> = [moved_record]"
    by simp
  have sid: "t_sid moved_record = Some ''s''"
    and em: "length (t_matrix moved_record) = 16" "list_all is_number (t_matrix moved_record)"
    and ew: "list_all is_number (t_morphTargetInfluences moved_record)"
    by (simp_all add: moved_record_def matrix0_def)
  have idem: "\<forall>x. round4 (round4 x) = round4 x"
    by (simp add: round4_idem)
  from applied_shared_record_is_not_echoed
         [OF all_registered_ok bound reg msg sid em ew m16 own idem]
       all_registered_ok bound reg sid em idem
  show ?thesis unfolding u by blast
qed

text \<open>
  C6 as stated covers every record. A record with a NaN channel is applied and the
  Snapshot is rewritten, but NaN stays different from itself: the next \<open>sync(false)\<close> emits
  the shared entity \<open>c\<close> again.
\<close>

theorem nan_record_is_echoed:
  "then_sync round4
     (handleSyncRequest ecmascript round4 all_registered
        \<lparr>c_id = ''p'', c_did = None, c_type = TRANSFER_TYPE_SYNC, c_list = [nan_record]\<rparr>)
   = Inr [''c'']"
  by (simp add: eval_defs apply_defs nan_record_def)

text \<open>
  C7. When the shared id \<open>S\<close> is already bound to an object \<open>O1\<close>,
  \<open>addSharedObject(O2, S)\<close> writes a warning to the console and changes nothing else:
  \<open>S\<close> stays bound to \<open>O1\<close>, the sequence of shared objects and the transfer components
  are as before, so no Snapshot is made for \<open>O2\<close>.
\<close>

theorem addSharedObject_rejects_bound_id:
  assumes "sharedObjectTable st S = Some O1"
  shows "addSharedObject r st O2 S =
           st\<lparr>warnings := warnings st @
                [''THREE.RemoteSystem.addSharedObject: Shared id '' @ S @ '' is already used.'']\<rparr>
         \<and> sharedObjectTable (addSharedObject r st O2 S) S = Some O1
         \<and> sharedObjectTable (addSharedObject r st O2 S) = sharedObjectTable st
         \<and> sharedObjects (addSharedObject r st O2 S) = sharedObjects st
         \<and> transferComponents (addSharedObject r st O2 S) = transferComponents st
         \<and> length (warnings (addSharedObject r st O2 S)) = length (warnings st) + 1"
  using assms by (simp add: addSharedObject_def)

theorem addSharedObject_rejects_bound_id_witness:
  "sharedObjectTable one_shared ''s'' = Some 3
   \<and> sharedObjectTable (addSharedObject round4 one_shared 1 ''s'') ''s'' = Some 3
   \<and> sharedObjects (addSharedObject round4 one_shared 1 ''s'') = [3]
   \<and> transferComponents (addSharedObject round4 one_shared 1 ''s'') ''a'' = None
   \<and> length (warnings (addSharedObject round4 one_shared 1 ''s'')) = 1"
proof -
  have bound: "sharedObjectTable one_shared ''s'' = Some 3"
    by (simp add: one_shared_def example_defs)
  have before: "sharedObjects one_shared = [3] \<and> transferComponents one_shared ''a'' = None
                \<and> warnings one_shared = []"
    by (simp add: one_shared_def example_defs)
  from addSharedObject_rejects_bound_id [OF bound, of round4 1] bound before
  show ?thesis by simp
qed

text \<open>
  C8. Calling \<open>addLocalObject\<close> a second time with an object of the same entity id is a
  silent no-op: the state after two calls is the state after one. An id that was already
  registered makes the first call a no-op too. Otherwise the first call appends the object
  to the sequence, stores the one Snapshot of that id, and broadcasts one ADD message if
  and only if a connection exists; so after both calls the object is once in the sequence
  (it was not there before), and at most one ADD was broadcast.
\<close>

theorem addLocalObject_twice:
  assumes "uuid_of st o2 = uuid_of st o1"
  shows "addLocalObject r (addLocalObject r st o1 i1) o2 i2 = addLocalObject r st o1 i1
       \<and> (localObjectTable st (uuid_of st o1) \<noteq> None \<longrightarrow> addLocalObject r st o1 i1 = st)
       \<and> (localObjectTable st (uuid_of st o1) = None \<longrightarrow>
            localObjects (addLocalObject r st o1 i1) = localObjects st @ [o1]
          \<and> localObjectTable (addLocalObject r st o1 i1) (uuid_of st o1) = Some o1
          \<and> transferComponents (addLocalObject r st o1 i1) (uuid_of st o1)
              = Some (createTransferComponent r (heap st o1))
          \<and> sent (addLocalObject r st o1 i1) =
              sent st @
              (if connectionNum st > 0
               then [Broadcast (AddPacket
                       \<lparr>c_id = self_id st, c_did = None, c_type = TRANSFER_TYPE_ADD,
                        c_list = [(uuid_of st o1, Some (case i1 of None \<Rightarrow> EmptyObject | Some i \<Rightarrow> i))]\<rparr>)]
               else []))
       \<and> (localObjectTable st (uuid_of st o1) = None \<and> o1 \<notin> set (localObjects st) \<longrightarrow>
            count_list (localObjects (addLocalObject r (addLocalObject r st o1 i1) o2 i2)) o1 = 1)"
proof -
  have same: "addLocalObject r (addLocalObject r st o1 i1) o2 i2 = addLocalObject r st o1 i1"
    using assms
    by (simp add: addLocalObject_def Let_def uuid_of_def broadcastAddObjectRequest_def
          client_broadcast_def)
  have first: "localObjectTable st (uuid_of st o1) = None \<longrightarrow>
            localObjects (addLocalObject r st o1 i1) = localObjects st @ [o1]
          \<and> localObjectTable (addLocalObject r st o1 i1) (uuid_of st o1) = Some o1
          \<and> transferComponents (addLocalObject r st o1 i1) (uuid_of st o1)
              = Some (createTransferComponent r (heap st o1))
          \<and> sent (addLocalObject r st o1 i1) =
              sent st @
              (if connectionNum st > 0
               then [Broadcast (AddPacket
                       \<lparr>c_id = self_id st, c_did = None, c_type = TRANSFER_TYPE_ADD,
                        c_list = [(uuid_of st o1, Some (case i1 of None \<Rightarrow> EmptyObject | Some i \<Rightarrow> i))]\<rparr>)]
               else [])"
    by (simp add: addLocalObject_def Let_def uuid_of_def broadcastAddObjectRequest_def
          client_broadcast_def buildObjectAdditionComponent_def)
  have reg: "localObjectTable st (uuid_of st o1) \<noteq> None \<longrightarrow> addLocalObject r st o1 i1 = st"
    by (simp add: addLocalObject_def)
  have once: "localObjectTable st (uuid_of st o1) = None \<and> o1 \<notin> set (localObjects st) \<longrightarrow>
            count_list (localObjects (addLocalObject r (addLocalObject r st o1 i1) o2 i2)) o1 = 1"
    using first by (simp add: same count_list_0_iff)
  from same first reg once show ?thesis by blast
qed

theorem addLocalObject_twice_witness:
  "uuid_of (RemoteSync_new ''me'' objects0 1) 1 = uuid_of (RemoteSync_new ''me'' objects0 1) 1
   \<and> addLocalObject round4 (addLocalObject round4 (RemoteSync_new ''me'' objects0 1) 1 None) 1 None
       = addLocalObject round4 (RemoteSync_new ''me'' objects0 1) 1 None
   \<and> localObjects (addLocalObject round4 (RemoteSync_new ''me'' objects0 1) 1 None) = [1]
   \<and> sent (addLocalObject round4 (RemoteSync_new ''me'' objects0 1) 1 None) =
       [Broadcast (AddPacket \<lparr>c_id = ''me'', c_did = None, c_type = TRANSFER_TYPE_ADD,
                              c_list = [(''a'', Some EmptyObject)]\<rparr>)]"
proof -
  have same: "uuid_of (RemoteSync_new ''me'' objects0 1) 1 = uuid_of (RemoteSync_new ''me'' objects0 1) 1"
    by simp
  have new: "localObjectTable (RemoteSync_new ''me'' objects0 1)
               (uuid_of (RemoteSync_new ''me'' objects0 1) 1) = None"
    by (simp add: RemoteSync_new_def)
  have init: "localObjects (RemoteSync_new ''me'' objects0 1 :: int remote_sync) = []
            \<and> sent (RemoteSync_new ''me'' objects0 1 :: int remote_sync) = []
            \<and> connectionNum (RemoteSync_new ''me'' objects0 1 :: int remote_sync) = 1
            \<and> self_id (RemoteSync_new ''me'' objects0 1 :: int remote_sync) = ''me''
            \<and> uuid_of (RemoteSync_new ''me'' objects0 1) 1 = ''a''"
    by (simp add: RemoteSync_new_def uuid_of_def objects0_def)
  from addLocalObject_twice [OF same, of round4 None None] new init
  show ?thesis by simp
qed




text \<open>
  C10. When \<open>(P, objectId)\<close> is already registered with the mirror \<open>M1\<close>,
  \<open>addRemoteObject(P, objectId, M2)\<close> changes nothing: \<open>M1\<close> stays registered and \<open>M2\<close>
  is not stored. So a second registration under the same key is a no-op.
\<close>

theorem addRemoteObject_keeps_first:
  assumes "remoteObjectTable st P = Some objects" and "map_of objects objectId = Some M1"
  shows "addRemoteObject st P objectId M2 = st
         \<and> addRemoteObject (addRemoteObject st0 P objectId M1) P objectId M2
             = addRemoteObject st0 P objectId M1"
proof -
  have first: "addRemoteObject st P objectId M2 = st"
    using assms by (simp add: addRemoteObject_def)
  have second: "addRemoteObject (addRemoteObject st0 P objectId M1) P objectId M2
                  = addRemoteObject st0 P objectId M1"
    by (cases "remoteObjectTable st0 P")
       (auto simp add: addRemoteObject_def Let_def split: option.splits)
  from first second show ?thesis by simp
qed

theorem addRemoteObject_keeps_first_witness:
  "remoteObjectTable two_mirrors ''p'' = Some [(''x'', 1), (''y'', 3)]
   \<and> addRemoteObject two_mirrors ''p'' ''x'' 2 = two_mirrors"
proof -
  have table: "remoteObjectTable two_mirrors ''p'' = Some [(''x'', 1), (''y'', 3)]"
    by (simp add: two_mirrors_def example_defs)
  have entry: "map_of [(''x'', 1::nat), (''y'', 3)] ''x'' = Some 1"
    by simp
  from addRemoteObject_keeps_first [OF table entry, THEN conjunct1, of 2] table
  show ?thesis by simp
qed

end
